theory Spec2Isabelle
  imports Main "HOL-Library.Sublist"
begin

section \<open>Strings as Python uses them\<close>

text \<open>
  Strings are byte lists holding the UTF-8 text of the source. The helpers below are the
  Python string operations that \<open>project_builder.py\<close> calls: the substring test
  \<open>sep in s\<close>, \<open>s.split(sep)[0]\<close>, \<open>s.startswith(p)\<close>, \<open>s.rstrip()\<close>, \<open>s.strip()\<close>
  and \<open>str(n)\<close> for a non-negative integer.
\<close>

fun contains :: "string \<Rightarrow> string \<Rightarrow> bool" where
  "contains sep [] = (sep = [])"
| "contains sep (c # cs) = (prefix sep (c # cs) \<or> contains sep cs)"

fun split_first :: "string \<Rightarrow> string \<Rightarrow> string" where
  "split_first sep [] = []"
| "split_first sep (c # cs) = (if prefix sep (c # cs) then [] else c # split_first sep cs)"

definition startswith :: "string \<Rightarrow> string \<Rightarrow> bool" where
  "startswith s p = prefix p s"

text \<open>
  The characters that \<open>str.strip\<close> and \<open>str.rstrip\<close> remove, each as its UTF-8 bytes:
  U+0009 to U+000D, U+001C to U+0020, U+0085, U+00A0, U+1680, U+2000 to U+200A, U+2028,
  U+2029, U+202F, U+205F and U+3000.
\<close>

definition whitespace :: "string list" where
  "whitespace =
     [[CHR 0x09], [CHR 0x0A], [CHR 0x0B], [CHR 0x0C], [CHR 0x0D],
      [CHR 0x1C], [CHR 0x1D], [CHR 0x1E], [CHR 0x1F], [CHR 0x20],
      [CHR 0xC2, CHR 0x85], [CHR 0xC2, CHR 0xA0], [CHR 0xE1, CHR 0x9A, CHR 0x80],
      [CHR 0xE2, CHR 0x80, CHR 0x80], [CHR 0xE2, CHR 0x80, CHR 0x81], [CHR 0xE2, CHR 0x80, CHR 0x82],
      [CHR 0xE2, CHR 0x80, CHR 0x83], [CHR 0xE2, CHR 0x80, CHR 0x84], [CHR 0xE2, CHR 0x80, CHR 0x85],
      [CHR 0xE2, CHR 0x80, CHR 0x86], [CHR 0xE2, CHR 0x80, CHR 0x87], [CHR 0xE2, CHR 0x80, CHR 0x88],
      [CHR 0xE2, CHR 0x80, CHR 0x89], [CHR 0xE2, CHR 0x80, CHR 0x8A], [CHR 0xE2, CHR 0x80, CHR 0xA8],
      [CHR 0xE2, CHR 0x80, CHR 0xA9], [CHR 0xE2, CHR 0x80, CHR 0xAF], [CHR 0xE2, CHR 0x81, CHR 0x9F],
      [CHR 0xE3, CHR 0x80, CHR 0x80]]"

function strip_left :: "string list \<Rightarrow> string \<Rightarrow> string" where
  "strip_left seqs s =
     (case find (\<lambda>ws. ws \<noteq> [] \<and> prefix ws s) seqs of
        None \<Rightarrow> s
      | Some ws \<Rightarrow> strip_left seqs (drop (length ws) s))"
  by pat_completeness auto
termination
proof (relation "measure (\<lambda>(seqs, s). length s)")
  show "wf (measure (\<lambda>(seqs, s). length s))" by simp
next
  fix seqs :: "string list" and s ws :: string
  assume "find (\<lambda>ws. ws \<noteq> [] \<and> prefix ws s) seqs = Some ws"
  then have "ws \<noteq> []" and "prefix ws s"
    by (auto simp: find_Some_iff)
  then have "s \<noteq> []" by auto
  with \<open>ws \<noteq> []\<close> show "((seqs, drop (length ws) s), seqs, s) \<in> measure (\<lambda>(seqs, s). length s)"
    by simp
qed

declare strip_left.simps [simp del]

definition lstrip :: "string \<Rightarrow> string" where
  "lstrip s = strip_left whitespace s"

definition rstrip :: "string \<Rightarrow> string" where
  "rstrip s = rev (strip_left (map rev whitespace) (rev s))"

definition strip :: "string \<Rightarrow> string" where
  "strip s = rstrip (lstrip s)"

definition digit_char :: "nat \<Rightarrow> char" where
  "digit_char d = char_of (48 + d)"

function str_nat :: "nat \<Rightarrow> string" where
  "str_nat n = (if n < 10 then [digit_char n] else str_nat (n div 10) @ [digit_char (n mod 10)])"
  by pat_completeness auto
termination
  by (relation "measure id") auto

declare str_nat.simps [simp del]

definition join :: "string \<Rightarrow> string list \<Rightarrow> string" where
  "join sep xs = (case xs of [] \<Rightarrow> [] | y # ys \<Rightarrow> y @ concat (map (\<lambda>z. sep @ z) ys))"

section \<open>Regular expressions\<close>

text \<open>
  \<open>re.match(pattern, s)\<close> for a pattern of the shape \<open>^r$\<close>. The body \<open>r\<close> is matched
  against the whole string by Brzozowski derivatives. Python's \<open>$\<close> also matches just
  before a newline that ends the string, so a string whose last character is a newline
  matches when the string without that newline does.
\<close>

datatype rexp = Zero | One | Cls "char \<Rightarrow> bool" | Alt rexp rexp | Seq rexp rexp | Star rexp

fun nullable :: "rexp \<Rightarrow> bool" where
  "nullable Zero = False"
| "nullable One = True"
| "nullable (Cls p) = False"
| "nullable (Alt r s) = (nullable r \<or> nullable s)"
| "nullable (Seq r s) = (nullable r \<and> nullable s)"
| "nullable (Star r) = True"

fun deriv :: "char \<Rightarrow> rexp \<Rightarrow> rexp" where
  "deriv c Zero = Zero"
| "deriv c One = Zero"
| "deriv c (Cls p) = (if p c then One else Zero)"
| "deriv c (Alt r s) = Alt (deriv c r) (deriv c s)"
| "deriv c (Seq r s) =
     (if nullable r then Alt (Seq (deriv c r) s) (deriv c s) else Seq (deriv c r) s)"
| "deriv c (Star r) = Seq (deriv c r) (Star r)"

fun matches :: "rexp \<Rightarrow> string \<Rightarrow> bool" where
  "matches r [] = nullable r"
| "matches r (c # cs) = matches (deriv c r) cs"

definition re_match_anchored :: "rexp \<Rightarrow> string \<Rightarrow> bool" where
  "re_match_anchored r s =
     (matches r s \<or> (s \<noteq> [] \<and> last s = CHR 0x0A \<and> matches r (butlast s)))"

definition in_range :: "char \<Rightarrow> char \<Rightarrow> char \<Rightarrow> bool" where
  "in_range lo hi c = ((of_char lo :: nat) \<le> of_char c \<and> (of_char c :: nat) \<le> of_char hi)"

definition alnum_class :: "char \<Rightarrow> bool" where
  "alnum_class c =
     (in_range CHR ''a'' CHR ''z'' c \<or> in_range CHR ''A'' CHR ''Z'' c \<or> in_range CHR ''0'' CHR ''9'' c)"

definition inner_class :: "char \<Rightarrow> bool" where
  "inner_class c = (alnum_class c \<or> c = CHR ''.'' \<or> c = CHR ''_'' \<or> c = CHR ''-'')"

definition package_pattern :: rexp where
  "package_pattern = Seq (Cls alnum_class) (Seq (Star (Cls inner_class)) (Cls alnum_class))"

section \<open>Package-name validation\<close>

definition separators :: "string list" where
  "separators = [''=='', ''>='', ''<='', ''>'', ''<'', ''~='', ''!='']"

fun base_name_of :: "string list \<Rightarrow> string \<Rightarrow> string" where
  "base_name_of [] pkg = pkg"
| "base_name_of (sep # seps) pkg =
     (if contains sep pkg then split_first sep pkg else base_name_of seps pkg)"

definition metachars :: "char list" where
  "metachars = [CHR '';'', CHR ''|'', CHR ''&'', CHR ''$'', CHR 0x60]"

definition url_prefixes :: "string list" where
  "url_prefixes = [''http://'', ''https://'', ''git+'', ''svn+'']"

definition validate_package_name :: "string \<Rightarrow> bool \<times> string" where
  "validate_package_name pkg =
     (if pkg = [] then (False, ''Package name cannot be empty'')
      else let base_name = base_name_of separators pkg in
        if list_ex (\<lambda>char. contains [char] base_name) metachars
          then (False, ''Invalid characters in package: '' @ base_name)
        else if list_ex (startswith base_name) url_prefixes
          then (False, ''Direct URLs not supported. Use package names only.'')
        else if \<not> re_match_anchored package_pattern base_name
          then (False, ''Invalid package name format: '' @ base_name)
        else (True, []))"

section \<open>The host: file system, processes, cancellation flag, event queue\<close>

text \<open>
  A path is its list of components; the file system is an association list from paths to
  nodes, the root being a directory. Directories listed in \<open>denied\<close> refuse the creation
  and removal of entries (a \<open>PermissionError\<close>); an entry at a path listed in \<open>foreign\<close>
  belongs to another user and can be neither created, written nor given a new time. The operations are those of \<open>pathlib\<close>,
  \<open>shutil\<close> and \<open>open\<close> that the worker calls; each returns the \<open>OSError\<close> it raises, or
  the new file system. A failed \<open>rmtree\<close> is taken to leave the tree as it was.
\<close>

type_synonym path = "string list"

datatype node = Dir | File string

type_synonym fs = "(path \<times> node) list"

datatype os_kind = PermissionError | FileNotFoundError | FileExistsError
  | NotADirectoryError | IsADirectoryError | OtherOSError

datatype exn = OSError os_kind path | LaunchError os_kind "string list"
  | CalledProcessError "string list" int

text \<open>
  A child process is given by what it does: it cannot be launched, or it is launched and
  then offers a finite list of \<open>readline\<close> results (an empty one is a read that returned
  nothing while the child was still running) before end of file and exit with its return
  code. The two functions are what a child that ran to its end did to the file system, and
  what a killed one left behind.
\<close>

datatype proc = LaunchFails os_kind
  | Runs "string list" int "fs \<Rightarrow> fs" "fs \<Rightarrow> fs"

record summary =
  project_path :: string
  project_size_text :: string
  package_count :: nat
  git_initialized :: bool

text \<open>One constructor for each kind of message that \<open>post\<close> puts on the queue.\<close>

datatype msg = Ok string | Error string | Warn string | Log string | Info string
  | Progress nat nat | Done string | Summary summary | Progress_complete

text \<open>
  What the host fixes for one run. \<open>procs n cmd\<close> is the behaviour of the child launched
  by the \<open>n\<close>-th process invocation when its argument vector is \<open>cmd\<close>. The cancellation
  flag is set between two reads of it and stays set: \<open>cancel_at = Some k\<close> says that the
  read number \<open>k\<close> (counting from 0) is the first to see it set. The texts of \<open>str(e)\<close>, of
  \<open>traceback.format_exc()\<close> and of the \<open>repr\<close> of an argument vector are the host's.
\<close>

record host =
  platform_win :: bool
  sys_executable :: string
  now_text :: string
  today_text :: string
  str_exn :: "exn \<Rightarrow> string"
  format_exc :: "exn \<Rightarrow> string"
  repr_argv :: "string list \<Rightarrow> string"
  procs :: "nat \<Rightarrow> string list \<Rightarrow> proc"
  cancel_at :: "nat option"
  denied :: "path list"
  foreign :: "path list"

record world =
  files :: fs
  polls :: nat
  invoked :: "string list list"
  killed :: "string list list"
  msgq :: "msg list"

definition lookup :: "fs \<Rightarrow> path \<Rightarrow> node option" where
  "lookup f p = (if p = [] then Some Dir else map_of f p)"

definition parent :: "path \<Rightarrow> path" where
  "parent p = butlast p"

definition name_of :: "path \<Rightarrow> string" where
  "name_of p = (if p = [] then [] else last p)"

definition path_str :: "host \<Rightarrow> path \<Rightarrow> string" where
  "path_str h p = (if platform_win h then join [CHR 0x5C] p else ''/'' @ join ''/'' p)"

definition exists_path :: "fs \<Rightarrow> path \<Rightarrow> bool" where
  "exists_path f p = (lookup f p \<noteq> None)"

definition is_dir :: "fs \<Rightarrow> path \<Rightarrow> bool" where
  "is_dir f p = (lookup f p = Some Dir)"

definition is_kind :: "os_kind \<Rightarrow> exn \<Rightarrow> bool" where
  "is_kind k e = (case e of OSError k' p \<Rightarrow> k' = k | LaunchError k' cmd \<Rightarrow> k' = k
                  | CalledProcessError cmd rc \<Rightarrow> False)"

definition create_entry :: "host \<Rightarrow> path \<Rightarrow> node \<Rightarrow> fs \<Rightarrow> exn + fs" where
  "create_entry h p n f =
     (case lookup f (parent p) of
        None \<Rightarrow> Inl (OSError FileNotFoundError p)
      | Some (File c) \<Rightarrow> Inl (OSError NotADirectoryError p)
      | Some Dir \<Rightarrow>
          if parent p \<in> set (denied h) \<or> p \<in> set (foreign h) then Inl (OSError PermissionError p)
          else Inr (f @ [(p, n)]))"

definition os_mkdir :: "host \<Rightarrow> path \<Rightarrow> fs \<Rightarrow> exn + fs" where
  "os_mkdir h p f =
     (case lookup f p of Some n \<Rightarrow> Inl (OSError FileExistsError p) | None \<Rightarrow> create_entry h p Dir f)"

text \<open>
  \<open>Path.mkdir(parents, exist_ok)\<close> as \<open>pathlib\<close> writes it: on \<open>FileNotFoundError\<close> with
  \<open>parents\<close> the parent is made first and the call is repeated without \<open>parents\<close>; any
  other \<open>OSError\<close> is dropped when \<open>exist_ok\<close> is set and the path is a directory.
\<close>

function mkdir :: "host \<Rightarrow> bool \<Rightarrow> bool \<Rightarrow> path \<Rightarrow> fs \<Rightarrow> exn + fs" where
  "mkdir h parents exist_ok p f =
     (case os_mkdir h p f of
        Inr f' \<Rightarrow> Inr f'
      | Inl e \<Rightarrow>
          if is_kind FileNotFoundError e then
            (if \<not> parents \<or> parent p = p then Inl e
             else (case mkdir h True True (parent p) f of
                     Inl e' \<Rightarrow> Inl e'
                   | Inr f1 \<Rightarrow> mkdir h False exist_ok p f1))
          else if \<not> exist_ok \<or> \<not> is_dir f p then Inl e else Inr f)"
  by pat_completeness auto
termination
proof (relation "measures [\<lambda>(h, parents, exist_ok, p, f). length p,
                           \<lambda>(h, parents, exist_ok, p, f). if parents then 1 else 0]")
  show "wf (measures [\<lambda>(h, parents, exist_ok, p, f). length p,
                      \<lambda>(h, parents, exist_ok, p, f). if parents then 1 else (0::nat)])"
    by simp
next
  fix h :: host and parents exist_ok :: bool and p :: path and f :: fs
  assume "\<not> (\<not> parents \<or> parent p = p)"
  then have "p \<noteq> []"
    by (auto simp: parent_def)
  then show "((h, True, True, parent p, f), h, parents, exist_ok, p, f)
      \<in> measures [\<lambda>(h, parents, exist_ok, p, f). length p,
                   \<lambda>(h, parents, exist_ok, p, f). if parents then 1 else (0::nat)]"
    by (simp add: parent_def)
next
  fix h :: host and parents exist_ok :: bool and p :: path and f f1 :: fs
  assume "\<not> (\<not> parents \<or> parent p = p)"
  then show "((h, False, exist_ok, p, f1), h, parents, exist_ok, p, f)
      \<in> measures [\<lambda>(h, parents, exist_ok, p, f). length p,
                   \<lambda>(h, parents, exist_ok, p, f). if parents then 1 else (0::nat)]"
    by simp
qed

declare mkdir.simps [simp del]

text \<open>
  \<open>Path.touch()\<close>: the time of an existing entry is set, and where that is refused the path
  is opened for writing, which raises; a missing entry is created as an empty file.
\<close>

definition touch :: "host \<Rightarrow> path \<Rightarrow> fs \<Rightarrow> exn + fs" where
  "touch h p f =
     (if exists_path f p then
        (if p \<in> set (foreign h)
         then Inl (OSError (if is_dir f p then IsADirectoryError else PermissionError) p)
         else Inr f)
      else create_entry h p (File []) f)"

definition unlink :: "host \<Rightarrow> path \<Rightarrow> fs \<Rightarrow> exn + fs" where
  "unlink h p f =
     (case lookup f p of
        None \<Rightarrow> Inl (OSError FileNotFoundError p)
      | Some Dir \<Rightarrow> Inl (OSError IsADirectoryError p)
      | Some (File c) \<Rightarrow>
          if parent p \<in> set (denied h) then Inl (OSError PermissionError p)
          else Inr (filter (\<lambda>(q, n). q \<noteq> p) f))"

definition rmtree :: "host \<Rightarrow> path \<Rightarrow> fs \<Rightarrow> exn + fs" where
  "rmtree h p f =
     (case lookup f p of
        None \<Rightarrow> Inl (OSError FileNotFoundError p)
      | Some (File c) \<Rightarrow> Inl (OSError NotADirectoryError p)
      | Some Dir \<Rightarrow>
          if parent p \<in> set (denied h) \<or> list_ex (\<lambda>q. prefix p q \<and> is_dir f q) (denied h)
          then Inl (OSError PermissionError p)
          else Inr (filter (\<lambda>(q, n). \<not> prefix p q) f))"

definition write_file :: "host \<Rightarrow> path \<Rightarrow> string \<Rightarrow> fs \<Rightarrow> exn + fs" where
  "write_file h p content f =
     (case lookup f p of
        Some Dir \<Rightarrow> Inl (OSError IsADirectoryError p)
      | Some (File c) \<Rightarrow>
          if p \<in> set (foreign h) then Inl (OSError PermissionError p)
          else Inr (map (\<lambda>(q, n). if q = p then (q, File content) else (q, n)) f)
      | None \<Rightarrow> create_entry h p (File content) f)"

definition post :: "msg \<Rightarrow> world \<Rightarrow> world" where
  "post m w = w\<lparr>msgq := msgq w @ [m]\<rparr>"

definition is_set :: "host \<Rightarrow> world \<Rightarrow> bool \<times> world" where
  "is_set h w =
     ((case cancel_at h of None \<Rightarrow> False | Some k \<Rightarrow> k \<le> polls w), w\<lparr>polls := Suc (polls w)\<rparr>)"

section \<open>The worker\<close>

record worker =
  project_dir :: path
  packages :: "string list"
  options :: "string \<rightharpoonup> bool"
  success :: bool
  venv_path :: "path option"
  cleanup_on_cancel :: bool
  project_size :: nat

definition get_opt :: "(string \<rightharpoonup> bool) \<Rightarrow> string \<Rightarrow> bool \<Rightarrow> bool" where
  "get_opt d k dflt = (case d k of None \<Rightarrow> dflt | Some b \<Rightarrow> b)"

definition new_worker :: "path \<Rightarrow> string list \<Rightarrow> (string \<rightharpoonup> bool) \<Rightarrow> worker" where
  "new_worker pd pkgs opts =
     \<lparr>project_dir = pd, packages = pkgs, options = opts, success = False, venv_path = None,
      cleanup_on_cancel = get_opt opts ''cleanup_on_fail'' False, project_size = 0\<rparr>"

definition which_pip_in_venv :: "host \<Rightarrow> path \<Rightarrow> path" where
  "which_pip_in_venv h venv =
     (if platform_win h then venv @ [''Scripts'', ''pip.exe''] else venv @ [''bin'', ''pip''])"

definition which_python_in_venv :: "host \<Rightarrow> path \<Rightarrow> path" where
  "which_python_in_venv h venv =
     (if platform_win h then venv @ [''Scripts'', ''python.exe''] else venv @ [''bin'', ''python3''])"

subsection \<open>Project size\<close>

definition calculate_project_size :: "worker \<Rightarrow> world \<Rightarrow> nat" where
  "calculate_project_size self w =
     sum_list (map (\<lambda>(q, n). case n of File c \<Rightarrow> length c | Dir \<Rightarrow> 0)
                   (filter (\<lambda>(q, n). strict_prefix (project_dir self) q) (files w)))"

text \<open>
  \<open>format_size\<close> divides by 1024.0 until the value is below 1024 and prints it with one
  decimal. The value is the exact quotient \<open>n / d\<close> as long as the size is below \<open>2^53\<close>
  bytes; \<open>one_decimal\<close> rounds it to tenths, ties to even, as \<open>:.1f\<close> does.
\<close>

definition one_decimal :: "nat \<Rightarrow> nat \<Rightarrow> string" where
  "one_decimal n d =
     (let q = (10 * n) div d; r = (10 * n) mod d;
          t = (if 2 * r < d then q else if d < 2 * r then q + 1 else if even q then q else q + 1)
      in str_nat (t div 10) @ ''.'' @ str_nat (t mod 10))"

fun format_size_units :: "string list \<Rightarrow> nat \<Rightarrow> nat \<Rightarrow> string" where
  "format_size_units [] n d = one_decimal n d @ '' TB''"
| "format_size_units (unit # units) n d =
     (if n < 1024 * d then one_decimal n d @ '' '' @ unit
      else format_size_units units n (d * 1024))"

definition format_size :: "nat \<Rightarrow> string" where
  "format_size size_bytes = format_size_units [''B'', ''KB'', ''MB'', ''GB''] size_bytes 1"

subsection \<open>The process runner\<close>

definition cancel_child :: "string list \<Rightarrow> (fs \<Rightarrow> fs) \<Rightarrow> world \<Rightarrow> world" where
  "cancel_child cmd keff w =
     post (Warn ''Operation cancelled by user.'')
       (w\<lparr>killed := killed w @ [cmd], files := keff (files w)\<rparr>)"

fun stream_loop :: "host \<Rightarrow> string list \<Rightarrow> (fs \<Rightarrow> fs) \<Rightarrow> string list \<Rightarrow> world \<Rightarrow> int option \<times> world" where
  "stream_loop h cmd keff [] w =
     (let (stop, w1) = is_set h w in
      if stop then (Some 1, cancel_child cmd keff w1) else (None, w1))"
| "stream_loop h cmd keff (line # rest) w =
     (let (stop, w1) = is_set h w in
      if stop then (Some 1, cancel_child cmd keff w1)
      else stream_loop h cmd keff rest (if line \<noteq> [] then post (Log (rstrip line)) w1 else w1))"

definition run_command_stream :: "host \<Rightarrow> string list \<Rightarrow> world \<Rightarrow> int \<times> world" where
  "run_command_stream h cmd w =
     (let w0 = w\<lparr>invoked := invoked w @ [cmd]\<rparr> in
      case procs h (length (invoked w)) cmd of
        LaunchFails k \<Rightarrow>
          (1, post (Error (''Failed to run command: '' @ repr_argv h cmd @ [CHR 0x0A]
                           @ ''Error: '' @ str_exn h (LaunchError k cmd))) w0)
      | Runs out rc eff keff \<Rightarrow>
          (case stream_loop h cmd keff out w0 of
             (Some r, w1) \<Rightarrow> (r, w1)
           | (None, w1) \<Rightarrow> (rc, w1\<lparr>files := eff (files w1)\<rparr>)))"

subsection \<open>Directory layout\<close>

definition directories :: "string list" where
  "directories = [''src'', ''tests'', ''docs'', ''data'', ''notebooks'', ''config'', ''logs'']"

fun create_directories :: "host \<Rightarrow> path \<Rightarrow> string list \<Rightarrow> world \<Rightarrow> exn option \<times> world" where
  "create_directories h pd [] w = (None, w)"
| "create_directories h pd (directory # rest) w =
     (let dir_path = pd @ [directory] in
      case mkdir h False True dir_path (files w) of
        Inl e \<Rightarrow> (Some e, w)
      | Inr f1 \<Rightarrow>
          let w1 = post (Log (''Created directory: '' @ directory @ ''/'')) (w\<lparr>files := f1\<rparr>) in
          if directory \<in> set [''src'', ''tests''] then
            (let init_file = dir_path @ [''__init__.py''] in
             case touch h init_file (files w1) of
               Inl e \<Rightarrow> (Some e, w1)
             | Inr f2 \<Rightarrow> create_directories h pd rest (w1\<lparr>files := f2\<rparr>))
          else create_directories h pd rest w1)"

definition create_directory_structure :: "host \<Rightarrow> worker \<Rightarrow> world \<Rightarrow> exn option \<times> world" where
  "create_directory_structure h self w = create_directories h (project_dir self) directories w"

subsection \<open>Environment creation\<close>

definition create_venv :: "host \<Rightarrow> worker \<Rightarrow> path \<Rightarrow> world \<Rightarrow> (exn + bool) \<times> world" where
  "create_venv h self venv w =
     (let test_file = parent venv @ [''.write_test''];
          no_permission = (\<lambda>w'. post (Error (''No write permission for: '' @ path_str h (parent venv))) w')
      in
      case touch h test_file (files w) of
        Inl e \<Rightarrow> if is_kind PermissionError e then (Inr False, no_permission w) else (Inl e, w)
      | Inr f1 \<Rightarrow>
          (case unlink h test_file f1 of
             Inl e \<Rightarrow>
               if is_kind PermissionError e then (Inr False, no_permission (w\<lparr>files := f1\<rparr>))
               else (Inl e, w\<lparr>files := f1\<rparr>)
           | Inr f2 \<Rightarrow>
               let w1 = post (Log (''Creating virtual environment at: '' @ path_str h venv @ '' ...''))
                          (w\<lparr>files := f2\<rparr>);
                   cmd = [sys_executable h, ''-m'', ''venv'', path_str h venv]
                         @ [''--prompt'', name_of (project_dir self)];
                   (rc, w2) = run_command_stream h cmd w1
               in if rc \<noteq> 0 then (Inr False, post (Error ''Virtual environment creation failed.'') w2)
                  else (Inr True, post (Ok ''Virtual environment created successfully.'') w2)))"

subsection \<open>The installer\<close>

fun install_loop :: "host \<Rightarrow> string \<Rightarrow> nat \<Rightarrow> nat \<Rightarrow> nat \<Rightarrow> string list \<Rightarrow> world \<Rightarrow> nat option \<times> world" where
  "install_loop h pip_executable total_n idx success_count [] w = (Some success_count, w)"
| "install_loop h pip_executable total_n idx success_count (pkg # rest) w =
     (let (stop, w1) = is_set h w in
      if stop then (None, w1)
      else
        let w2 = post (Log (''Installing ['' @ str_nat idx @ ''/'' @ str_nat total_n @ '']: '' @ pkg @ '' ...'')) w1;
            cmd = [pip_executable, ''install'', pkg];
            (rc, w3) = run_command_stream h cmd w2;
            success_count' = (if rc = 0 then success_count + 1 else success_count);
            w4 = (if rc = 0 then w3 else post (Error (''Failed to install: '' @ pkg)) w3);
            w5 = post (Progress idx total_n) w4
        in install_loop h pip_executable total_n (idx + 1) success_count' rest w5)"

text \<open>
  The loop returns \<open>None\<close> where the source returns \<open>False\<close> from inside it (the flag was
  seen set before an attempt), and the number of successes when it ran through the list.
\<close>

definition install_packages_individual :: "host \<Rightarrow> string \<Rightarrow> string list \<Rightarrow> world \<Rightarrow> bool \<times> world" where
  "install_packages_individual h pip_executable pkgs w =
     (let total_n = length pkgs in
      case install_loop h pip_executable total_n 1 0 pkgs w of
        (None, w1) \<Rightarrow> (False, w1)
      | (Some success_count, w1) \<Rightarrow>
          if success_count = total_n then (True, post (Ok ''All packages installed successfully.'') w1)
          else if success_count > 0 then
            (True, post (Warn (''Installed '' @ str_nat success_count @ ''/'' @ str_nat total_n @ '' packages.'')) w1)
          else (False, post (Error ''No packages were installed.'') w1))"

fun validate_loop :: "string list \<Rightarrow> string list \<Rightarrow> world \<Rightarrow> string list \<times> world" where
  "validate_loop [] valid_packages w = (valid_packages, w)"
| "validate_loop (pkg # rest) valid_packages w =
     (let (is_valid, m) = validate_package_name pkg in
      if is_valid then validate_loop rest (valid_packages @ [pkg]) w
      else validate_loop rest valid_packages
             (post (Warn (''Skipping invalid package: '' @ pkg @ '' ('' @ m @ '')'')) w))"

definition install_packages_batch :: "host \<Rightarrow> worker \<Rightarrow> string \<Rightarrow> world \<Rightarrow> bool \<times> world" where
  "install_packages_batch h self pip_executable w =
     (if packages self = [] then (True, w)
      else
        let w1 = post (Log (''Installing '' @ str_nat (length (packages self)) @ '' package(s) in batch...'')) w;
            (valid_packages, w2) = validate_loop (packages self) [] w1
        in
        if valid_packages = [] then (True, post (Log ''No valid packages to install.'') w2)
        else
          let cmd = [pip_executable, ''install''] @ valid_packages;
              (rc, w3) = run_command_stream h cmd w2
          in
          if rc = 0 then (True, post (Ok ''Batch installation successful.'') w3)
          else install_packages_individual h pip_executable valid_packages
                 (post (Warn ''Batch installation failed, trying individual packages...'') w3))"

subsection \<open>Manifest, documentation, version control\<close>

definition write_requirements :: "host \<Rightarrow> worker \<Rightarrow> world \<Rightarrow> bool \<times> world" where
  "write_requirements h self w =
     (let req_path = project_dir self @ [''requirements.txt''];
          content = ''# Generated by Project Builder'' @ [CHR 0x0A]
                    @ ''# Date: '' @ now_text h @ [CHR 0x0A, CHR 0x0A]
                    @ concat (map (\<lambda>pkg. strip pkg @ [CHR 0x0A]) (packages self))
      in
      case write_file h req_path content (files w) of
        Inr f1 \<Rightarrow> (True, post (Ok (''requirements.txt saved ('' @ path_str h req_path @ '')'')) (w\<lparr>files := f1\<rparr>))
      | Inl e \<Rightarrow> (False, post (Error (''Failed to write requirements.txt: '' @ str_exn h e)) w))"

definition tree_tee :: string where
  "tree_tee = [CHR 0xE2, CHR 0x80, CHR 0x9A, CHR 0xC3, CHR 0xAE, CHR 0xC3, CHR 0xBA, CHR 0xE2, CHR 0x80, CHR 0x9A, CHR 0xC3, CHR 0xAE, CHR 0xC3, CHR 0x84, CHR 0xE2, CHR 0x80, CHR 0x9A, CHR 0xC3, CHR 0xAE, CHR 0xC3, CHR 0x84]"

definition tree_corner :: string where
  "tree_corner = [CHR 0xE2, CHR 0x80, CHR 0x9A, CHR 0xC3, CHR 0xAE, CHR 0xC3, CHR 0xAE, CHR 0xE2, CHR 0x80, CHR 0x9A, CHR 0xC3, CHR 0xAE, CHR 0xC3, CHR 0x84, CHR 0xE2, CHR 0x80, CHR 0x9A, CHR 0xC3, CHR 0xAE, CHR 0xC3, CHR 0x84]"

definition readme_text :: "string \<Rightarrow> string \<Rightarrow> string" where
  "readme_text name date =
     ''# '' @ name @ [CHR 0x0A] @
     [CHR 0x0A] @
     ''## Description'' @ [CHR 0x0A] @
     ''Project created with Project Builder on '' @ date @ [CHR 0x0A] @
     [CHR 0x0A] @
     ''## Project Structure'' @ [CHR 0x0A] @
     [CHR 0x60, CHR 0x60, CHR 0x60, CHR 0x0A] @
     name @ ''/'' @ [CHR 0x0A] @
     tree_tee @ '' src/           # Source code'' @ [CHR 0x0A] @
     tree_tee @ '' tests/         # Test files'' @ [CHR 0x0A] @
     tree_tee @ '' docs/          # Documentation'' @ [CHR 0x0A] @
     tree_tee @ '' data/          # Data files'' @ [CHR 0x0A] @
     tree_tee @ '' notebooks/     # Jupyter notebooks'' @ [CHR 0x0A] @
     tree_tee @ '' config/        # Configuration files'' @ [CHR 0x0A] @
     tree_tee @ '' logs/          # Log files'' @ [CHR 0x0A] @
     tree_tee @ '' venv/          # Virtual environment (gitignored)'' @ [CHR 0x0A] @
     tree_tee @ '' requirements.txt'' @ [CHR 0x0A] @
     tree_corner @ '' README.md'' @ [CHR 0x0A] @
     [CHR 0x60, CHR 0x60, CHR 0x60, CHR 0x0A] @
     [CHR 0x0A] @
     ''## Installation'' @ [CHR 0x0A] @
     ''1. Create virtual environment:'' @ [CHR 0x0A] @
     ''   '' @ [CHR 0x60, CHR 0x60, CHR 0x60] @ ''bash'' @ [CHR 0x0A] @
     ''   python -m venv venv'' @ [CHR 0x0A] @
     ''   '' @ [CHR 0x60, CHR 0x60, CHR 0x60, CHR 0x0A] @
     [CHR 0x0A] @
     ''2. Activate virtual environment:'' @ [CHR 0x0A] @
     ''   - Windows: '' @ [CHR 0x60] @ ''venv'' @ [CHR 0x5C] @ ''Scripts'' @ [CHR 0x5C] @ ''activate'' @ [CHR 0x60, CHR 0x0A] @
     ''   - macOS/Linux: '' @ [CHR 0x60] @ ''source venv/bin/activate'' @ [CHR 0x60, CHR 0x0A] @
     [CHR 0x0A] @
     ''3. Install dependencies:'' @ [CHR 0x0A] @
     ''   '' @ [CHR 0x60, CHR 0x60, CHR 0x60] @ ''bash'' @ [CHR 0x0A] @
     ''   pip install -r requirements.txt'' @ [CHR 0x0A] @
     ''   '' @ [CHR 0x60, CHR 0x60, CHR 0x60, CHR 0x0A] @
     [CHR 0x0A] @
     ''## Usage'' @ [CHR 0x0A] @
     [CHR 0x60, CHR 0x60, CHR 0x60] @ ''python'' @ [CHR 0x0A] @
     ''# Add your code here'' @ [CHR 0x0A] @
     ''import sys'' @ [CHR 0x0A] @
     ''sys.path.append('' @ [CHR 0x27] @ ''src'' @ [CHR 0x27] @ '')'' @ [CHR 0x0A] @
     [CHR 0x0A] @
     ''def main():'' @ [CHR 0x0A] @
     ''    print('' @ [CHR 0x22] @ ''Hello from '' @ name @ ''!'' @ [CHR 0x22] @ '')'' @ [CHR 0x0A] @
     [CHR 0x0A] @
     ''if __name__ == '' @ [CHR 0x22] @ ''__main__'' @ [CHR 0x22] @ '':'' @ [CHR 0x0A] @
     ''    main()'' @ [CHR 0x0A] @
     [CHR 0x60, CHR 0x60, CHR 0x60, CHR 0x0A] @
     [CHR 0x0A] @
     ''## Development'' @ [CHR 0x0A] @
     ''- Run tests: '' @ [CHR 0x60] @ ''pytest tests/'' @ [CHR 0x60, CHR 0x0A] @
     ''- Format code: '' @ [CHR 0x60] @ ''black src/ tests/'' @ [CHR 0x60, CHR 0x0A] @
     ''- Lint code: '' @ [CHR 0x60] @ ''pylint src/'' @ [CHR 0x60, CHR 0x0A] @
     [CHR 0x0A] @
     ''## License'' @ [CHR 0x0A] @
     ''Add your license here'' @ [CHR 0x0A]"

definition create_readme :: "host \<Rightarrow> worker \<Rightarrow> world \<Rightarrow> bool \<times> world" where
  "create_readme h self w =
     (let readme_path = project_dir self @ [''README.md''] in
      case write_file h readme_path (readme_text (name_of (project_dir self)) (today_text h)) (files w) of
        Inr f1 \<Rightarrow> (True, post (Ok ''README.md created.'') (w\<lparr>files := f1\<rparr>))
      | Inl e \<Rightarrow> (False, post (Error (''Failed to create README.md: '' @ str_exn h e)) w))"

definition gitignore_content :: string where
  "gitignore_content =
     ''# Python'' @ [CHR 0x0A] @
     ''venv/'' @ [CHR 0x0A] @
     ''__pycache__/'' @ [CHR 0x0A] @
     ''*.py[cod]'' @ [CHR 0x0A] @
     ''*$py.class'' @ [CHR 0x0A] @
     ''*.so'' @ [CHR 0x0A] @
     ''.Python'' @ [CHR 0x0A] @
     ''build/'' @ [CHR 0x0A] @
     ''develop-eggs/'' @ [CHR 0x0A] @
     ''dist/'' @ [CHR 0x0A] @
     ''downloads/'' @ [CHR 0x0A] @
     ''eggs/'' @ [CHR 0x0A] @
     ''.eggs/'' @ [CHR 0x0A] @
     ''lib/'' @ [CHR 0x0A] @
     ''lib64/'' @ [CHR 0x0A] @
     ''parts/'' @ [CHR 0x0A] @
     ''sdist/'' @ [CHR 0x0A] @
     ''var/'' @ [CHR 0x0A] @
     ''wheels/'' @ [CHR 0x0A] @
     ''*.egg-info/'' @ [CHR 0x0A] @
     ''.installed.cfg'' @ [CHR 0x0A] @
     ''*.egg'' @ [CHR 0x0A] @
     [CHR 0x0A] @
     ''# IDE'' @ [CHR 0x0A] @
     ''.vscode/'' @ [CHR 0x0A] @
     ''.idea/'' @ [CHR 0x0A] @
     ''*.swp'' @ [CHR 0x0A] @
     ''*.swo'' @ [CHR 0x0A] @
     ''*~'' @ [CHR 0x0A] @
     [CHR 0x0A] @
     ''# OS'' @ [CHR 0x0A] @
     ''.DS_Store'' @ [CHR 0x0A] @
     ''Thumbs.db'' @ [CHR 0x0A] @
     [CHR 0x0A] @
     ''# Project specific'' @ [CHR 0x0A] @
     ''data/'' @ [CHR 0x0A] @
     ''logs/'' @ [CHR 0x0A] @
     ''*.db'' @ [CHR 0x0A] @
     ''*.sqlite3'' @ [CHR 0x0A] @
     ''.env'' @ [CHR 0x0A] @
     ''.secrets'' @ [CHR 0x0A]"

text \<open>\<open>subprocess.run(cmd, check=True, capture_output=True)\<close>: no streaming, no look at the flag.\<close>

definition subprocess_run :: "host \<Rightarrow> string list \<Rightarrow> world \<Rightarrow> exn option \<times> world" where
  "subprocess_run h cmd w =
     (let w0 = w\<lparr>invoked := invoked w @ [cmd]\<rparr> in
      case procs h (length (invoked w)) cmd of
        LaunchFails k \<Rightarrow> (Some (LaunchError k cmd), w0)
      | Runs out rc eff keff \<Rightarrow>
          (if rc \<noteq> 0 then Some (CalledProcessError cmd rc) else None, w0\<lparr>files := eff (files w0)\<rparr>))"

definition is_called_process_error :: "exn \<Rightarrow> bool" where
  "is_called_process_error e =
     (case e of CalledProcessError cmd rc \<Rightarrow> True | OSError k p \<Rightarrow> False | LaunchError k cmd \<Rightarrow> False)"

definition git_steps :: "host \<Rightarrow> worker \<Rightarrow> world \<Rightarrow> exn option \<times> world" where
  "git_steps h self w =
     (case subprocess_run h [''git'', ''init''] w of
        (Some e, w1) \<Rightarrow> (Some e, w1)
      | (None, w1) \<Rightarrow>
          (case write_file h (project_dir self @ [''.gitignore'']) gitignore_content (files w1) of
             Inl e \<Rightarrow> (Some e, w1)
           | Inr f1 \<Rightarrow>
               (case subprocess_run h [''git'', ''add'', ''.''] (w1\<lparr>files := f1\<rparr>) of
                  (Some e, w2) \<Rightarrow> (Some e, w2)
                | (None, w2) \<Rightarrow>
                    subprocess_run h
                      [''git'', ''commit'', ''-m'', ''Initial commit: Project created with Project Builder'']
                      w2)))"

definition create_git_repo :: "host \<Rightarrow> worker \<Rightarrow> world \<Rightarrow> (exn + bool) \<times> world" where
  "create_git_repo h self w =
     (case subprocess_run h [''git'', ''--version''] w of
        (Some e, w1) \<Rightarrow>
          if is_called_process_error e \<or> is_kind FileNotFoundError e
          then (Inr False, post (Warn ''Git not found or not in PATH. Skipping git initialization.'') w1)
          else (Inl e, w1)
      | (None, w1) \<Rightarrow>
          (case git_steps h self (post (Log ''Initializing git repository...'') w1) of
             (None, w2) \<Rightarrow> (Inr True, post (Ok ''Git repository initialized with initial commit.'') w2)
           | (Some e, w2) \<Rightarrow>
               if is_called_process_error e
               then (Inr False, post (Error (''Git operation failed: '' @ str_exn h e)) w2)
               else (Inr False, post (Error (''Failed to initialize git: '' @ str_exn h e)) w2)))"

subsection \<open>Cleanup\<close>

definition cleanup_partial :: "host \<Rightarrow> worker \<Rightarrow> world \<Rightarrow> world" where
  "cleanup_partial h self w =
     (case venv_path self of
        None \<Rightarrow> w
      | Some venv \<Rightarrow>
          if cleanup_on_cancel self \<and> exists_path (files w) venv then
            (case rmtree h venv (files w) of
               Inr f1 \<Rightarrow> post (Log ''Cleaned up partial virtual environment.'') (w\<lparr>files := f1\<rparr>)
             | Inl e \<Rightarrow> post (Warn (''Failed to cleanup: '' @ str_exn h e)) w)
          else w)"

subsection \<open>The run\<close>

text \<open>The marks that open the two texts of the \<open>done\<close> message, as the source file has them.\<close>

definition mark_ok :: string where
  "mark_ok = [CHR 0xE2, CHR 0x80, CHR 0x9A, CHR 0xC3, CHR 0xBA, CHR 0xC3, CHR 0x96]"

definition mark_fail :: string where
  "mark_fail = [CHR 0xE2, CHR 0x80, CHR 0x9A, CHR 0xC3, CHR 0xB9, CHR 0xC3, CHR 0xA5]"

definition dash :: string where
  "dash = [CHR 0xE2, CHR 0x80, CHR 0x9A, CHR 0xC3, CHR 0x84, CHR 0xC3, CHR 0xAE]"

definition done_ok :: "worker \<Rightarrow> msg" where
  "done_ok self = Done (mark_ok @ '' Project '' @ [CHR 0x27] @ name_of (project_dir self) @ [CHR 0x27]
                        @ '' created successfully!'')"

definition done_failed :: msg where
  "done_failed = Done (mark_fail @ '' Project creation failed.'')"

definition summary_of :: "host \<Rightarrow> worker \<Rightarrow> string \<Rightarrow> summary" where
  "summary_of h self size_str =
     \<lparr>project_path = path_str h (project_dir self), project_size_text = size_str,
      package_count = length (packages self),
      git_initialized = get_opt (options self) ''create_git'' False\<rparr>"

text \<open>Steps 5 to 9 of \<open>run\<close>. The first component is the exception that leaves the \<open>try\<close> block.\<close>

definition finish_steps :: "host \<Rightarrow> worker \<Rightarrow> world \<Rightarrow> exn option \<times> worker \<times> world" where
  "finish_steps h self w =
     (let w1 = snd (write_requirements h self w);
          w2 = (if get_opt (options self) ''create_readme'' True then snd (create_readme h self w1) else w1)
      in
      case (if get_opt (options self) ''create_git'' False then create_git_repo h self w2
            else (Inr False, w2)) of
        (Inl e, w3) \<Rightarrow> (Some e, self, w3)
      | (Inr b, w3) \<Rightarrow>
          let self1 = self\<lparr>project_size := calculate_project_size self w3\<rparr>;
              size_str = format_size (project_size self1);
              w4 = post (Info (''Project size: '' @ size_str)) w3;
              self2 = self1\<lparr>success := True\<rparr>;
              w5 = post (done_ok self2) w4
          in (None, self2, post (Summary (summary_of h self2 size_str)) w5))"

text \<open>Step 4 once the installer is located: \<open>pip_exec\<close> and \<open>use_python_for_pip\<close> are set.\<close>

definition install_step :: "host \<Rightarrow> worker \<Rightarrow> string \<Rightarrow> bool \<Rightarrow> world \<Rightarrow> exn option \<times> worker \<times> world" where
  "install_step h self pip_exec use_python_for_pip w =
     (if packages self \<noteq> [] then
        (if use_python_for_pip then
           (let pip_cmd_base = [pip_exec, ''-m'', ''pip''];
                cmd = pip_cmd_base @ [''install''] @ packages self;
                (rc, w1) = run_command_stream h cmd w
            in if rc \<noteq> 0
               then (None, self, cleanup_partial h self (post (Error ''Package installation failed.'') w1))
               else finish_steps h self w1)
         else
           (let (installed, w1) = install_packages_batch h self pip_exec w in
            if \<not> installed then (None, self, cleanup_partial h self w1)
            else finish_steps h self w1))
      else finish_steps h self (post (Log ''No packages to install.'') w))"

definition locate_installer :: "host \<Rightarrow> worker \<Rightarrow> path \<Rightarrow> world \<Rightarrow> exn option \<times> worker \<times> world" where
  "locate_installer h self venv w =
     (let pip_exec = which_pip_in_venv h venv in
      if \<not> exists_path (files w) pip_exec then
        (let python_exec = which_python_in_venv h venv in
         if exists_path (files w) python_exec then
           install_step h self (path_str h python_exec) True
             (post (Log ''Using python -m pip (pip binary not found).'') w)
         else (None, self, cleanup_partial h self (post (Error ''Cannot locate pip in venv. Aborting.'') w)))
      else install_step h self (path_str h pip_exec) False w)"

text \<open>
  The \<open>try\<close> block of \<open>run\<close>: \<open>None\<close> when it is left by a \<open>return\<close> or at its end,
  \<open>Some e\<close> when exception \<open>e\<close> leaves it.
\<close>

definition run_body :: "host \<Rightarrow> worker \<Rightarrow> world \<Rightarrow> exn option \<times> worker \<times> world" where
  "run_body h self w =
     (case mkdir h True True (project_dir self) (files w) of
        Inl e \<Rightarrow> (None, self, post (Error (''Cannot create project folder: '' @ str_exn h e)) w)
      | Inr f1 \<Rightarrow>
          let w1 = post (Ok (''Project folder: '' @ path_str h (project_dir self))) (w\<lparr>files := f1\<rparr>) in
          (case create_directory_structure h self w1 of
             (Some e, w2) \<Rightarrow> (Some e, self, w2)
           | (None, w2) \<Rightarrow>
               let venv = project_dir self @ [''venv''];
                   self1 = self\<lparr>venv_path := Some venv\<rparr>
               in
               if exists_path (files w2) venv then
                 locate_installer h self1 venv (post (Warn (''venv already exists '' @ dash @ '' reusing.'')) w2)
               else
                 (case create_venv h self1 venv w2 of
                    (Inl e, w3) \<Rightarrow> (Some e, self1, w3)
                  | (Inr created, w3) \<Rightarrow>
                      if \<not> created then (None, self1, cleanup_partial h self1 w3)
                      else locate_installer h self1 venv w3)))"

definition run :: "host \<Rightarrow> worker \<Rightarrow> world \<Rightarrow> worker \<times> world" where
  "run h self w =
     (let (raised, self1, w1) = run_body h self w;
          w2 = (case raised of
                  None \<Rightarrow> w1
                | Some e \<Rightarrow> post (Error (format_exc h e))
                              (post (Error (''Unexpected error: '' @ str_exn h e)) w1));
          w3 = (if \<not> success self1 then post done_failed w2 else w2)
      in (self1, post Progress_complete w3))"

section \<open>Notions used in the statements\<close>

text \<open>
  A message is plain when it is none of the three closing messages. It is early when it
  cannot come from step 5 of the run or later: \<open>write_requirements\<close> always posts an \<open>ok\<close>
  that starts with \<open>requirements.txt saved\<close> or an \<open>error\<close> that starts with
  \<open>Failed to write requirements.txt\<close>, and only step 8 posts an \<open>info\<close>.
  \<open>grows_by P w w'\<close> says that the queue of \<open>w'\<close> is the queue of \<open>w\<close> followed by
  messages that satisfy \<open>P\<close>.
\<close>

fun plain :: "msg \<Rightarrow> bool" where
  "plain (Done t) = False"
| "plain (Summary s) = False"
| "plain Progress_complete = False"
| "plain m = True"

fun early :: "msg \<Rightarrow> bool" where
  "early (Ok t) = (\<not> prefix ''requirements.txt saved'' t)"
| "early (Error t) = (\<not> prefix ''Failed to write requirements.txt'' t)"
| "early (Info t) = False"
| "early (Done t) = False"
| "early (Summary s) = False"
| "early Progress_complete = False"
| "early m = True"

definition grows_by :: "(msg \<Rightarrow> bool) \<Rightarrow> world \<Rightarrow> world \<Rightarrow> bool" where
  "grows_by P w w' = (\<exists>evs. msgq w' = msgq w @ evs \<and> list_all P evs)"

abbreviation grows :: "world \<Rightarrow> world \<Rightarrow> bool" where
  "grows \<equiv> grows_by plain"

text \<open>
  What the \<open>try\<close> block of \<open>run\<close> leaves behind when it started in \<open>w0\<close>: either the
  success flag is set, no exception left the block and the queue ends with the success
  \<open>done\<close> and the summary, or the flag is not set and only plain messages were posted.
\<close>

definition body_shape :: "host \<Rightarrow> world \<Rightarrow> exn option \<times> worker \<times> world \<Rightarrow> bool" where
  "body_shape h w0 r =
     (case r of (raised, self', w') \<Rightarrow>
        if success self'
        then raised = None \<and>
             (\<exists>evs. list_all plain evs \<and>
                msgq w' = msgq w0 @ evs @ [done_ok self',
                  Summary (summary_of h self' (format_size (project_size self')))])
        else grows w0 w')"

text \<open>
  Hosts and worlds for evaluating the worker on concrete inputs: a POSIX host whose
  \<open>n\<close>-th process invocation behaves as the \<open>n\<close>-th entry of a script (and cannot be
  launched once the script is used up), and a world that starts with the given files.
\<close>

definition scripted :: "proc list \<Rightarrow> nat \<Rightarrow> string list \<Rightarrow> proc" where
  "scripted ps n cmd = (if n < length ps then ps ! n else LaunchFails FileNotFoundError)"

definition example_host :: "proc list \<Rightarrow> nat option \<Rightarrow> host" where
  "example_host ps c =
     \<lparr>platform_win = False, sys_executable = ''/usr/bin/python3'',
      now_text = ''2026-01-01 12:00:00'', today_text = ''2026-01-01'',
      str_exn = (\<lambda>e. ''error''), format_exc = (\<lambda>e. ''traceback''),
      repr_argv = (\<lambda>cmd. join '' '' cmd), procs = scripted ps, cancel_at = c, denied = [],
      foreign = []\<rparr>"

definition example_world :: "fs \<Rightarrow> world" where
  "example_world f = \<lparr>files = f, polls = 0, invoked = [], killed = [], msgq = []\<rparr>"

text \<open>A project folder \<open>/demo\<close> that already holds an environment with its \<open>pip\<close>.\<close>

definition reused_venv_files :: fs where
  "reused_venv_files =
     [([''demo''], Dir), ([''demo'', ''venv''], Dir), ([''demo'', ''venv'', ''bin''], Dir),
      ([''demo'', ''venv'', ''bin'', ''pip''], File ''#!'')]"

text \<open>
  What the process runner returns for a child when the flag is never set, and the codes
  it returns for the commands of the per-package fallback when they are the process
  invocations number \<open>n\<close>, \<open>n + 1\<close>, ... of the run.
\<close>

definition exit_code :: "proc \<Rightarrow> int" where
  "exit_code p = (case p of LaunchFails k \<Rightarrow> 1 | Runs out rc eff keff \<Rightarrow> rc)"

fun fallback_codes :: "host \<Rightarrow> string \<Rightarrow> string list \<Rightarrow> nat \<Rightarrow> int list" where
  "fallback_codes h pip_executable [] n = []"
| "fallback_codes h pip_executable (pkg # rest) n =
     exit_code (procs h n [pip_executable, ''install'', pkg])
       # fallback_codes h pip_executable rest (Suc n)"



definition quiet :: "world \<Rightarrow> world \<Rightarrow> bool" where
  "quiet w w' =
     (length (invoked w) \<le> length (invoked w') \<and>
      (length (invoked w') = length (invoked w) \<longrightarrow> polls w' = polls w))"

section \<open>Properties of the validation predicate\<close>

lemma matches_Zero: "\<not> matches Zero s"
  by (induction s) auto

lemma pattern_needs_two: "matches package_pattern s \<Longrightarrow> 2 \<le> length s"
proof (cases s)
  case Nil
  assume "matches package_pattern s"
  with Nil show ?thesis by (simp add: package_pattern_def)
next
  case (Cons c cs)
  assume m: "matches package_pattern s"
  show ?thesis
  proof (cases cs)
    case Nil
    with m Cons show ?thesis
      by (simp add: package_pattern_def split: if_splits)
  next
    case (Cons d ds)
    with \<open>s = c # cs\<close> show ?thesis by simp
  qed
qed

lemma anchored_needs_two: "re_match_anchored package_pattern s \<Longrightarrow> 2 \<le> length s"
  unfolding re_match_anchored_def
  using pattern_needs_two [of s] pattern_needs_two [of "butlast s"] by auto

text \<open>
  Claim C9. A package whose base name (the text before the version separator) is one
  character long is rejected by \<open>validate_package_name\<close>: the pattern asks for a first and
  a last alphanumeric character, hence for two characters at least.
\<close>

theorem single_char_base_rejected:
  "length (base_name_of separators pkg) = 1 \<Longrightarrow> \<not> fst (validate_package_name pkg)"
  using anchored_needs_two [of "base_name_of separators pkg"]
  by (auto simp: validate_package_name_def Let_def)

theorem single_char_base_rejected_witness:
  "length (base_name_of separators ''q'') = 1 \<and>
   validate_package_name ''q'' = (False, ''Invalid package name format: q'') \<and>
   length (base_name_of separators ''q>=2.0'') = 1 \<and> \<not> fst (validate_package_name ''q>=2.0'')"
  using single_char_base_rejected [of "''q''"] single_char_base_rejected [of "''q>=2.0''"]
  by (simp add: validate_package_name_def separators_def metachars_def url_prefixes_def
      startswith_def re_match_anchored_def package_pattern_def alnum_class_def in_range_def)

section \<open>Frame lemmas: process invocations and the event queue\<close>


lemma contains_single: "contains [c] s \<longleftrightarrow> c \<in> set s"
  by (induction s) auto

lemma post_simps [simp]:
  "msgq (post m w) = msgq w @ [m]"
  "invoked (post m w) = invoked w"
  "files (post m w) = files w"
  "polls (post m w) = polls w"
  "killed (post m w) = killed w"
  by (simp_all add: post_def)

lemma is_set_simps [simp]:
  "msgq (snd (is_set h w)) = msgq w"
  "invoked (snd (is_set h w)) = invoked w"
  "files (snd (is_set h w)) = files w"
  "killed (snd (is_set h w)) = killed w"
  "polls (snd (is_set h w)) = Suc (polls w)"
  by (simp_all add: is_set_def)

lemma cancel_child_simps [simp]:
  "msgq (cancel_child cmd keff w) = msgq w @ [Warn ''Operation cancelled by user.'']"
  "invoked (cancel_child cmd keff w) = invoked w"
  "polls (cancel_child cmd keff w) = polls w"
  "killed (cancel_child cmd keff w) = killed w @ [cmd]"
  by (simp_all add: cancel_child_def)

lemma stream_loop_invoked [simp]:
  "invoked (snd (stream_loop h cmd keff out w)) = invoked w"
  by (induction out arbitrary: w) (auto simp: split_beta Let_def)

lemma run_command_stream_invoked [simp]:
  "invoked (snd (run_command_stream h cmd w)) = invoked w @ [cmd]"
  by (simp add: run_command_stream_def Let_def split_beta split: proc.splits option.splits)

lemma install_loop_invoked:
  "\<exists>ran. invoked (snd (install_loop h pip tot idx sc pkgs w)) = invoked w @ map (\<lambda>p. [pip, ''install'', p]) ran
     \<and> set ran \<subseteq> set pkgs"
proof (induction pkgs arbitrary: w idx sc)
  case Nil
  show ?case by (rule exI [of _ "[]"]) simp
next
  case (Cons pkg rest)
  show ?case
  proof (cases "fst (is_set h w)")
    case True
    then show ?thesis by (intro exI [of _ "[]"]) (simp add: split_beta)
  next
    case False
    define w2 where "w2 = post (Log (''Installing ['' @ str_nat idx @ ''/'' @ str_nat tot @ '']: '' @ pkg @ '' ...'')) (snd (is_set h w))"
    define r where "r = run_command_stream h [pip, ''install'', pkg] w2"
    define w5 where "w5 = post (Progress idx tot) (if fst r = 0 then snd r else post (Error (''Failed to install: '' @ pkg)) (snd r))"
    have eq: "install_loop h pip tot idx sc (pkg # rest) w =
        install_loop h pip tot (idx + 1) (if fst r = 0 then sc + 1 else sc) rest w5"
      using False by (simp add: split_beta Let_def w2_def r_def w5_def)
    have inv5: "invoked w5 = invoked w @ [[pip, ''install'', pkg]]"
      by (simp add: w5_def r_def w2_def)
    from Cons.IH [of "idx + 1" "if fst r = 0 then sc + 1 else sc" w5]
    obtain ran where d: "invoked (snd (install_loop h pip tot (idx + 1) (if fst r = 0 then sc + 1 else sc) rest w5))
        = invoked w5 @ map (\<lambda>p. [pip, ''install'', p]) ran" "set ran \<subseteq> set rest"
      by blast
    show ?thesis
      by (rule exI [of _ "pkg # ran"]) (use d inv5 eq in auto)
  qed
qed


lemma early_plain: "early m \<Longrightarrow> plain m"
  by (cases m) simp_all

lemma grows_by_refl [simp]: "grows_by P w w"
  by (simp add: grows_by_def)

lemma grows_by_trans: "grows_by P w w1 \<Longrightarrow> grows_by P w1 w2 \<Longrightarrow> grows_by P w w2"
  unfolding grows_by_def by (metis append.assoc list_all_append)

lemma grows_by_mono:
  assumes "grows_by P w w'" and "\<And>m. P m \<Longrightarrow> Q m"
  shows "grows_by Q w w'"
proof -
  from assms(1) obtain evs where "msgq w' = msgq w @ evs" "list_all P evs"
    unfolding grows_by_def by blast
  moreover from this(2) assms(2) have "list_all Q evs"
    by (auto simp: list_all_iff)
  ultimately show ?thesis unfolding grows_by_def by blast
qed

lemma grows_then_early: "grows w w1 \<Longrightarrow> grows_by early w1 w2 \<Longrightarrow> grows w w2"
  using grows_by_trans grows_by_mono early_plain by blast

lemma grows_by_post: "P m \<Longrightarrow> grows_by P w w1 \<Longrightarrow> grows_by P w (post m w1)"
  unfolding grows_by_def by auto

lemma grows_by_files [simp]: "grows_by P w (w1\<lparr>files := f\<rparr>) = grows_by P w w1"
  by (simp add: grows_by_def)

lemma grows_by_invoked [simp]: "grows_by P w (w1\<lparr>invoked := f\<rparr>) = grows_by P w w1"
  by (simp add: grows_by_def)

lemma grows_by_is_set [simp]: "grows_by P w (snd (is_set h w1)) = grows_by P w w1"
  by (simp add: grows_by_def)

lemma early_cancel_child: "grows_by early w w1 \<Longrightarrow> grows_by early w (cancel_child cmd keff w1)"
  unfolding grows_by_def by auto

lemma early_stream_loop_from:
  "grows_by early w w1 \<Longrightarrow> grows_by early w (snd (stream_loop h cmd keff out w1))"
proof (induction out arbitrary: w1)
  case Nil
  then show ?case by (simp add: split_beta early_cancel_child)
next
  case (Cons line rest)
  then show ?case by (simp add: split_beta early_cancel_child grows_by_post)
qed

lemma early_run_command_stream: "grows_by early w (snd (run_command_stream h cmd w))"
  by (simp add: run_command_stream_def Let_def split_beta grows_by_post early_stream_loop_from
      split: proc.splits option.splits)

lemma early_create_directories_from:
  "grows_by early w w1 \<Longrightarrow> grows_by early w (snd (create_directories h pd ds w1))"
  by (induction ds arbitrary: w1) (auto simp: Let_def grows_by_post split: sum.splits)

lemma early_create_directories: "grows_by early w (snd (create_directories h pd ds w))"
  by (rule early_create_directories_from) simp

lemma early_create_venv: "grows_by early w (snd (create_venv h self venv w))"
proof -
  have "grows_by early w w1 \<Longrightarrow> grows_by early w (snd (run_command_stream h cmd w1))" for w1 cmd
    using early_run_command_stream grows_by_trans by blast
  then show ?thesis
    by (auto simp: create_venv_def Let_def split_beta grows_by_post split: sum.splits)
qed

lemma early_install_loop_from:
  "grows_by early w w1 \<Longrightarrow> grows_by early w (snd (install_loop h pip tot idx sc pkgs w1))"
proof (induction pkgs arbitrary: w1 idx sc)
  case Nil
  then show ?case by simp
next
  case (Cons pkg rest)
  have run: "grows_by early w w2 \<Longrightarrow> grows_by early w (snd (run_command_stream h cmd w2))" for w2 cmd
    using early_run_command_stream grows_by_trans by blast
  show ?case
    by (simp add: split_beta Let_def Cons.prems Cons.IH grows_by_post run)
qed

lemma early_install_packages_individual:
  "grows_by early w (snd (install_packages_individual h pip pkgs w))"
  using early_install_loop_from [of w w h pip "length pkgs" 1 0 pkgs]
  by (auto simp: install_packages_individual_def Let_def split_beta grows_by_post
      split: option.splits)

lemma early_validate_loop_from:
  "grows_by early w w1 \<Longrightarrow> grows_by early w (snd (validate_loop pkgs valid w1))"
  by (induction pkgs arbitrary: w1 valid) (auto simp: split_beta grows_by_post)

lemma early_cleanup_partial: "grows_by early w (cleanup_partial h self w)"
  by (auto simp: cleanup_partial_def grows_by_post split: option.splits sum.splits)

lemma grows_post: "plain m \<Longrightarrow> grows w w1 \<Longrightarrow> grows w (post m w1)"
  by (rule grows_by_post)

lemma grows_run_command_stream: "grows w w1 \<Longrightarrow> grows w (snd (run_command_stream h cmd w1))"
  by (erule grows_then_early) (rule early_run_command_stream)

lemma grows_create_directories: "grows w w1 \<Longrightarrow> grows w (snd (create_directories h pd ds w1))"
  by (erule grows_then_early) (rule early_create_directories)

lemma grows_create_venv: "grows w w1 \<Longrightarrow> grows w (snd (create_venv h self venv w1))"
  by (erule grows_then_early) (rule early_create_venv)

lemma grows_install_packages_individual:
  "grows w w1 \<Longrightarrow> grows w (snd (install_packages_individual h pip pkgs w1))"
  by (erule grows_then_early) (rule early_install_packages_individual)

lemma grows_cleanup_partial: "grows w w1 \<Longrightarrow> grows w (cleanup_partial h self w1)"
  by (erule grows_then_early) (rule early_cleanup_partial)

lemma grows_write_requirements: "grows w w1 \<Longrightarrow> grows w (snd (write_requirements h self w1))"
  by (auto simp: write_requirements_def Let_def grows_post split: sum.splits)

lemma grows_create_readme: "grows w w1 \<Longrightarrow> grows w (snd (create_readme h self w1))"
  by (auto simp: create_readme_def Let_def grows_post split: sum.splits)

lemma grows_subprocess_run: "grows w w1 \<Longrightarrow> grows w (snd (subprocess_run h cmd w1))"
  by (auto simp: subprocess_run_def Let_def split: proc.splits)

lemma grows_git_steps: "grows w w1 \<Longrightarrow> grows w (snd (git_steps h self w1))"
  by (auto simp: git_steps_def split_beta grows_subprocess_run
      split: option.splits sum.splits)

lemma grows_create_git_repo: "grows w w1 \<Longrightarrow> grows w (snd (create_git_repo h self w1))"
  by (auto simp: create_git_repo_def split_beta grows_subprocess_run grows_git_steps grows_post
      split: option.splits)

lemma validate_loop_fst:
  "fst (validate_loop pkgs valid w) = valid @ filter (\<lambda>p. fst (validate_package_name p)) pkgs"
  by (induction pkgs arbitrary: valid w) (auto simp: split_beta)

lemma validate_loop_invoked [simp]: "invoked (snd (validate_loop pkgs valid w)) = invoked w"
  by (induction pkgs arbitrary: valid w) (auto simp: split_beta)

lemma validate_loop_msgq:
  "msgq (snd (validate_loop pkgs valid w)) =
     msgq w @ map (\<lambda>p. Warn (''Skipping invalid package: '' @ p @ '' ('' @ snd (validate_package_name p) @ '')''))
                  (filter (\<lambda>p. \<not> fst (validate_package_name p)) pkgs)"
  by (induction pkgs arbitrary: valid w) (auto simp: split_beta)

lemma install_packages_individual_invoked:
  "\<exists>ran. invoked (snd (install_packages_individual h pip pkgs w))
            = invoked w @ map (\<lambda>p. [pip, ''install'', p]) ran \<and> set ran \<subseteq> set pkgs"
  using install_loop_invoked [of h pip "length pkgs" 1 0 pkgs w]
  by (auto simp: install_packages_individual_def Let_def split_beta split: option.splits)

lemma install_packages_batch_cases:
  fixes h self pip w
  defines "valid \<equiv> filter (\<lambda>p. fst (validate_package_name p)) (packages self)"
  defines "w2 \<equiv> snd (validate_loop (packages self) []
       (post (Log (''Installing '' @ str_nat (length (packages self)) @ '' package(s) in batch...'')) w))"
  defines "r \<equiv> run_command_stream h (pip # ''install'' # valid) w2"
  shows "install_packages_batch h self pip w =
     (if packages self = [] then (True, w)
      else if valid = [] then (True, post (Log ''No valid packages to install.'') w2)
      else if fst r = 0 then (True, post (Ok ''Batch installation successful.'') (snd r))
      else install_packages_individual h pip valid
             (post (Warn ''Batch installation failed, trying individual packages...'') (snd r)))"
  unfolding install_packages_batch_def Let_def split_beta valid_def w2_def r_def validate_loop_fst
  by simp

lemma install_packages_batch_invoked:
  "\<exists>cmds. invoked (snd (install_packages_batch h self pip w)) = invoked w @ cmds \<and>
     (\<forall>cmd \<in> set cmds. \<exists>args. cmd = pip # ''install'' # args \<and>
         set args \<subseteq> {p \<in> set (packages self). fst (validate_package_name p)})"
proof -
  define valid where "valid = filter (\<lambda>p. fst (validate_package_name p)) (packages self)"
  define w2 where "w2 = snd (validate_loop (packages self) []
       (post (Log (''Installing '' @ str_nat (length (packages self)) @ '' package(s) in batch...'')) w))"
  define r where "r = run_command_stream h (pip # ''install'' # valid) w2"
  define w3 where "w3 = post (Warn ''Batch installation failed, trying individual packages...'') (snd r)"
  note unf = install_packages_batch_cases [of h self pip w, folded valid_def w2_def, folded r_def, folded w3_def]
  have i2: "invoked w2 = invoked w" by (simp add: w2_def)
  have i3: "invoked w3 = invoked w @ [pip # ''install'' # valid]"
    by (simp add: w3_def r_def i2)
  have ir: "invoked (snd r) = invoked w @ [pip # ''install'' # valid]"
    by (simp add: r_def i2)
  consider (empty) "packages self = []" | (novalid) "packages self \<noteq> []" "valid = []"
    | (batch) "packages self \<noteq> []" "valid \<noteq> []" "fst r = 0"
    | (fallback) "packages self \<noteq> []" "valid \<noteq> []" "fst r \<noteq> 0"
    by blast
  then show ?thesis
  proof cases
    case empty
    then show ?thesis by (intro exI [of _ "[]"]) (simp add: unf)
  next
    case novalid
    then show ?thesis
      using i2 by (intro exI [of _ "[]"]) (simp add: unf)
  next
    case batch
    then have "invoked (snd (install_packages_batch h self pip w)) = invoked w @ [pip # ''install'' # valid]"
      using ir by (simp add: unf)
    then show ?thesis
      by (intro exI [of _ "[pip # ''install'' # valid]"]) (auto simp: valid_def)
  next
    case fallback
    then have eq: "install_packages_batch h self pip w = install_packages_individual h pip valid w3"
      by (simp add: unf)
    obtain ran where ran: "invoked (snd (install_packages_individual h pip valid w3))
        = invoked w3 @ map (\<lambda>p. [pip, ''install'', p]) ran" "set ran \<subseteq> set valid"
      using install_packages_individual_invoked by blast
    show ?thesis
      by (rule exI [of _ "(pip # ''install'' # valid) # map (\<lambda>p. [pip, ''install'', p]) ran"])
         (use ran eq i3 in \<open>auto simp: valid_def\<close>)
  qed
qed

lemma install_packages_batch_warns:
  assumes "pkg \<in> set (packages self)" and "\<not> fst (validate_package_name pkg)"
  shows "Warn (''Skipping invalid package: '' @ pkg @ '' ('' @ snd (validate_package_name pkg) @ '')'')
           \<in> set (drop (length (msgq w)) (msgq (snd (install_packages_batch h self pip w))))"
proof -
  let ?warn = "\<lambda>p. Warn (''Skipping invalid package: '' @ p @ '' ('' @ snd (validate_package_name p) @ '')'')"
  define valid where "valid = filter (\<lambda>p. fst (validate_package_name p)) (packages self)"
  define w2 where "w2 = snd (validate_loop (packages self) []
       (post (Log (''Installing '' @ str_nat (length (packages self)) @ '' package(s) in batch...'')) w))"
  define r where "r = run_command_stream h (pip # ''install'' # valid) w2"
  note unf = install_packages_batch_cases [of h self pip w, folded valid_def w2_def, folded r_def]
  have m2: "msgq w2 = msgq w @ Log (''Installing '' @ str_nat (length (packages self)) @ '' package(s) in batch...'')
      # map ?warn (filter (\<lambda>p. \<not> fst (validate_package_name p)) (packages self))"
    by (simp add: w2_def validate_loop_msgq)
  have "grows w2 (snd r)"
    unfolding r_def by (rule grows_run_command_stream) simp
  then have "grows w2 (snd (install_packages_batch h self pip w))"
    using assms(1)
    by (auto simp: unf grows_post grows_install_packages_individual)
  then obtain evs where "msgq (snd (install_packages_batch h self pip w)) = msgq w2 @ evs"
    unfolding grows_by_def by blast
  with m2 assms show ?thesis by auto
qed

lemma metachar_invalid:
  assumes "c \<in> set metachars" and "c \<in> set (base_name_of separators pkg)"
  shows "validate_package_name pkg = (False, ''Invalid characters in package: '' @ base_name_of separators pkg)"
proof -
  have "pkg \<noteq> []" using assms(2) by (auto simp: separators_def)
  moreover have "list_ex (\<lambda>char. contains [char] (base_name_of separators pkg)) metachars"
    using assms by (auto simp: list_ex_iff contains_single)
  ultimately show ?thesis by (simp add: validate_package_name_def)
qed

section \<open>The installer and shell metacharacters\<close>

text \<open>
  Claim C1, as the code has it. The metacharacter check of \<open>validate_package_name\<close> reads
  the base name only, the text before the version separator. An entry of the package list
  whose base name holds one of \<open>;\<close>, \<open>|\<close>, \<open>&\<close>, \<open>$\<close> or a backtick is rejected by the
  predicate; no process invocation made by \<open>install_packages_batch\<close> (the batch attempt and
  the per-package fallback) has it among its arguments; and the warning that it is skipped
  is posted.
\<close>

theorem metachar_base_name_excluded:
  assumes "pkg \<in> set (packages self)" and "c \<in> set metachars"
    and "c \<in> set (base_name_of separators pkg)"
  shows "\<not> fst (validate_package_name pkg) \<and>
    (\<forall>cmd \<in> set (drop (length (invoked w)) (invoked (snd (install_packages_batch h self pip w)))).
        \<exists>args. cmd = pip # ''install'' # args \<and> pkg \<notin> set args) \<and>
    Warn (''Skipping invalid package: '' @ pkg @ '' (Invalid characters in package: ''
          @ base_name_of separators pkg @ '')'')
      \<in> set (drop (length (msgq w)) (msgq (snd (install_packages_batch h self pip w))))"
proof -
  have inv: "validate_package_name pkg = (False, ''Invalid characters in package: '' @ base_name_of separators pkg)"
    using assms(2,3) by (rule metachar_invalid)
  obtain cmds where cmds: "invoked (snd (install_packages_batch h self pip w)) = invoked w @ cmds"
    "\<forall>cmd \<in> set cmds. \<exists>args. cmd = pip # ''install'' # args \<and>
         set args \<subseteq> {p \<in> set (packages self). fst (validate_package_name p)}"
    using install_packages_batch_invoked by blast
  have "\<forall>cmd \<in> set cmds. \<exists>args. cmd = pip # ''install'' # args \<and> pkg \<notin> set args"
  proof
    fix cmd assume "cmd \<in> set cmds"
    with cmds(2) obtain args where "cmd = pip # ''install'' # args"
      "set args \<subseteq> {p \<in> set (packages self). fst (validate_package_name p)}" by blast
    with inv show "\<exists>args. cmd = pip # ''install'' # args \<and> pkg \<notin> set args" by auto
  qed
  moreover have "Warn (''Skipping invalid package: '' @ pkg @ '' ('' @ snd (validate_package_name pkg) @ '')'')
           \<in> set (drop (length (msgq w)) (msgq (snd (install_packages_batch h self pip w))))"
    using assms(1) inv by (intro install_packages_batch_warns) simp_all
  ultimately show ?thesis using inv cmds(1) by simp
qed

theorem metachar_base_name_excluded_witness:
  "''pkg;rm -rf /'' \<in> set (packages (new_worker [''demo''] [''pkg;rm -rf /'', ''requests''] Map.empty)) \<and>
   CHR '';'' \<in> set metachars \<and>
   CHR '';'' \<in> set (base_name_of separators ''pkg;rm -rf /'') \<and>
   invoked (snd (install_packages_batch (example_host [Runs [] 1 id id, Runs [] 0 id id] None)
        (new_worker [''demo''] [''pkg;rm -rf /'', ''requests''] Map.empty) ''pip'' (example_world [])))
     = [[''pip'', ''install'', ''requests''], [''pip'', ''install'', ''requests'']] \<and>
   \<not> fst (validate_package_name ''pkg;rm -rf /'') \<and>
   Warn (''Skipping invalid package: '' @ ''pkg;rm -rf /'' @ '' (Invalid characters in package: ''
          @ base_name_of separators ''pkg;rm -rf /'' @ '')'')
      \<in> set (drop (length (msgq (example_world [])))
          (msgq (snd (install_packages_batch (example_host [Runs [] 1 id id, Runs [] 0 id id] None)
          (new_worker [''demo''] [''pkg;rm -rf /'', ''requests''] Map.empty) ''pip'' (example_world [])))))"
proof -
  have a: "''pkg;rm -rf /'' \<in> set (packages (new_worker [''demo''] [''pkg;rm -rf /'', ''requests''] Map.empty))"
    by (simp add: new_worker_def)
  have b: "CHR '';'' \<in> set metachars"
    by (simp add: metachars_def)
  have c: "CHR '';'' \<in> set (base_name_of separators ''pkg;rm -rf /'')"
    by (simp add: separators_def)
  have d: "invoked (snd (install_packages_batch (example_host [Runs [] 1 id id, Runs [] 0 id id] None)
        (new_worker [''demo''] [''pkg;rm -rf /'', ''requests''] Map.empty) ''pip'' (example_world [])))
     = [[''pip'', ''install'', ''requests''], [''pip'', ''install'', ''requests'']]"
    by code_simp
  from a b c d metachar_base_name_excluded [OF a b c] show ?thesis
    by blast
qed

text \<open>
  The claim as stated fails: a metacharacter behind the version separator is not looked at,
  so \<open>ab==1;x\<close> is valid and is handed to the batch invocation.
\<close>

theorem metachar_after_separator_accepted:
  "CHR '';'' \<in> set ''ab==1;x'' \<and> fst (validate_package_name ''ab==1;x'') \<and>
   invoked (snd (install_packages_batch (example_host [Runs [] 0 id id] None)
        (new_worker [''demo''] [''ab==1;x''] Map.empty) ''pip'' (example_world [])))
     = [[''pip'', ''install'', ''ab==1;x'']]"
  by code_simp

section \<open>The closing messages of a run\<close>

lemma body_shape_failed: "\<not> success self' \<Longrightarrow> grows w0 w' \<Longrightarrow> body_shape h w0 (r, self', w')"
  by (simp add: body_shape_def)

lemma finish_steps_cases:
  fixes h self w
  defines "w2 \<equiv> (if get_opt (options self) ''create_readme'' True
                 then snd (create_readme h self (snd (write_requirements h self w)))
                 else snd (write_requirements h self w))"
  defines "g \<equiv> (if get_opt (options self) ''create_git'' False then create_git_repo h self w2
               else (Inr False, w2))"
  defines "self2 \<equiv> self\<lparr>project_size := calculate_project_size self (snd g), success := True\<rparr>"
  shows "finish_steps h self w =
     (case fst g of
        Inl e \<Rightarrow> (Some e, self, snd g)
      | Inr b \<Rightarrow> (None, self2,
          post (Summary (summary_of h self2 (format_size (project_size self2))))
            (post (done_ok self2)
               (post (Info (''Project size: '' @ format_size (project_size self2))) (snd g)))))"
proof -
  have "finish_steps h self w =
     (case g of
        (Inl e, w3) \<Rightarrow> (Some e, self, w3)
      | (Inr b, w3) \<Rightarrow>
          let self1 = self\<lparr>project_size := calculate_project_size self w3\<rparr>;
              size_str = format_size (project_size self1);
              w4 = post (Info (''Project size: '' @ size_str)) w3;
              self2 = self1\<lparr>success := True\<rparr>;
              w5 = post (done_ok self2) w4
          in (None, self2, post (Summary (summary_of h self2 size_str)) w5))"
    by (simp only: finish_steps_def Let_def w2_def g_def)
  also have "\<dots> = (case fst g of
        Inl e \<Rightarrow> (Some e, self, snd g)
      | Inr b \<Rightarrow> (None, self2,
          post (Summary (summary_of h self2 (format_size (project_size self2))))
            (post (done_ok self2)
               (post (Info (''Project size: '' @ format_size (project_size self2))) (snd g)))))"
    by (cases g) (simp add: Let_def self2_def split: sum.splits)
  finally show ?thesis .
qed

lemma finish_steps_shape:
  assumes "\<not> success self" and "grows w0 w"
  shows "body_shape h w0 (finish_steps h self w)"
proof -
  define w2 where "w2 = (if get_opt (options self) ''create_readme'' True
                 then snd (create_readme h self (snd (write_requirements h self w)))
                 else snd (write_requirements h self w))"
  define g where "g = (if get_opt (options self) ''create_git'' False then create_git_repo h self w2
            else (Inr False, w2))"
  define self2 where "self2 = self\<lparr>project_size := calculate_project_size self (snd g), success := True\<rparr>"
  note unf = finish_steps_cases [of h self w, folded w2_def, folded g_def, folded self2_def]
  have g2: "grows w0 w2"
    unfolding w2_def using assms(2) by (simp add: grows_create_readme grows_write_requirements)
  have g3: "grows w0 (snd g)" unfolding g_def using g2 by (simp add: grows_create_git_repo)
  show ?thesis
  proof (cases "fst g")
    case (Inl e)
    then have "finish_steps h self w = (Some e, self, snd g)"
      by (simp add: unf)
    with assms(1) g3 show ?thesis by (simp add: body_shape_failed)
  next
    case (Inr b)
    obtain evs where evs: "msgq (snd g) = msgq w0 @ evs" "list_all plain evs"
      using g3 unfolding grows_by_def by blast
    define size_str where "size_str = format_size (project_size self2)"
    have eq: "finish_steps h self w = (None, self2,
        post (Summary (summary_of h self2 size_str))
          (post (done_ok self2) (post (Info (''Project size: '' @ size_str)) (snd g))))"
      using Inr by (simp add: unf size_str_def)
    have "success self2" by (simp add: self2_def)
    moreover have "list_all plain (evs @ [Info (''Project size: '' @ size_str)])"
      using evs(2) by simp
    moreover have "msgq (post (Summary (summary_of h self2 size_str))
          (post (done_ok self2) (post (Info (''Project size: '' @ size_str)) (snd g))))
        = msgq w0 @ (evs @ [Info (''Project size: '' @ size_str)]) @ [done_ok self2, Summary (summary_of h self2 size_str)]"
      using evs(1) by simp
    ultimately show ?thesis
      unfolding eq body_shape_def size_str_def by (simp del: list_all_append)
  qed
qed

lemma early_run_command_stream_from:
  "grows_by early w w1 \<Longrightarrow> grows_by early w (snd (run_command_stream h cmd w1))"
  using early_run_command_stream grows_by_trans by blast

lemma early_install_packages_individual_from:
  "grows_by early w w1 \<Longrightarrow> grows_by early w (snd (install_packages_individual h pip pkgs w1))"
  using early_install_packages_individual grows_by_trans by blast

lemma early_install_packages_batch:
  "grows_by early w (snd (install_packages_batch h self pip w))"
  by (simp add: install_packages_batch_def Let_def split_beta grows_by_post
      early_validate_loop_from early_run_command_stream_from early_install_packages_individual_from)

lemma grows_install_packages_batch:
  "grows w w1 \<Longrightarrow> grows w (snd (install_packages_batch h self pip w1))"
  by (erule grows_then_early) (rule early_install_packages_batch)

lemma install_step_cases:
  "install_step h self pip use_python w =
     (if packages self = [] then finish_steps h self (post (Log ''No packages to install.'') w)
      else if use_python then
        (if fst (run_command_stream h ([pip, ''-m'', ''pip''] @ [''install''] @ packages self) w) \<noteq> 0
         then (None, self, cleanup_partial h self (post (Error ''Package installation failed.'')
                (snd (run_command_stream h ([pip, ''-m'', ''pip''] @ [''install''] @ packages self) w))))
         else finish_steps h self
                (snd (run_command_stream h ([pip, ''-m'', ''pip''] @ [''install''] @ packages self) w)))
      else
        (if \<not> fst (install_packages_batch h self pip w)
         then (None, self, cleanup_partial h self (snd (install_packages_batch h self pip w)))
         else finish_steps h self (snd (install_packages_batch h self pip w))))"
  by (simp only: install_step_def Let_def split_beta if_not_P not_not cong: if_cong) simp

lemma install_step_shape:
  assumes "\<not> success self" and "grows w0 w"
  shows "body_shape h w0 (install_step h self pip use_python w)"
  unfolding install_step_cases using assms
  by (simp add: finish_steps_shape body_shape_failed grows_cleanup_partial grows_post
      grows_run_command_stream grows_install_packages_batch)

lemma locate_installer_shape:
  assumes "\<not> success self" and "grows w0 w"
  shows "body_shape h w0 (locate_installer h self venv w)"
  using assms
  by (simp add: locate_installer_def Let_def install_step_shape body_shape_failed
      grows_cleanup_partial grows_post)

lemma run_body_cases:
  fixes h self w
  defines "venv \<equiv> project_dir self @ [''venv'']"
  defines "self1 \<equiv> self\<lparr>venv_path := Some venv\<rparr>"
  shows "run_body h self w =
     (case mkdir h True True (project_dir self) (files w) of
        Inl e \<Rightarrow> (None, self, post (Error (''Cannot create project folder: '' @ str_exn h e)) w)
      | Inr f1 \<Rightarrow>
         (let d = create_directory_structure h self
                    (post (Ok (''Project folder: '' @ path_str h (project_dir self))) (w\<lparr>files := f1\<rparr>))
          in case fst d of
               Some e \<Rightarrow> (Some e, self, snd d)
             | None \<Rightarrow>
                if exists_path (files (snd d)) venv then
                  locate_installer h self1 venv
                    (post (Warn (''venv already exists '' @ dash @ '' reusing.'')) (snd d))
                else
                  (let v = create_venv h self1 venv (snd d) in
                   case fst v of
                     Inl e \<Rightarrow> (Some e, self1, snd v)
                   | Inr created \<Rightarrow>
                       if \<not> created then (None, self1, cleanup_partial h self1 (snd v))
                       else locate_installer h self1 venv (snd v))))"
  unfolding run_body_def Let_def venv_def self1_def
  by (simp add: split_beta split: prod.splits option.splits sum.splits)

lemma run_body_shape:
  assumes "\<not> success self"
  shows "body_shape h w (run_body h self w)"
proof -
  have s1: "\<not> success (self\<lparr>venv_path := Some (project_dir self @ [''venv''])\<rparr>)"
    using assms by simp
  show ?thesis
    unfolding run_body_cases Let_def create_directory_structure_def
    using assms s1
    by (auto simp: body_shape_failed locate_installer_shape grows_cleanup_partial grows_post
        grows_create_directories grows_create_venv
        split: option.splits sum.splits)
qed

lemma run_queue_shape:
  "\<exists>evs. list_all plain evs \<and>
     msgq (snd (run h (new_worker pd pkgs opts) w)) =
       msgq w @ evs
       @ (if success (fst (run h (new_worker pd pkgs opts) w))
          then [done_ok (fst (run h (new_worker pd pkgs opts) w)),
                Summary (summary_of h (fst (run h (new_worker pd pkgs opts) w))
                   (format_size (project_size (fst (run h (new_worker pd pkgs opts) w)))))]
          else [done_failed])
       @ [Progress_complete]"
proof -
  obtain raised self' w' where rb: "run_body h (new_worker pd pkgs opts) w = (raised, self', w')"
    by (cases "run_body h (new_worker pd pkgs opts) w") auto
  have shape: "body_shape h w (raised, self', w')"
    using run_body_shape [of "new_worker pd pkgs opts" h w] rb by (simp add: new_worker_def)
  show ?thesis
  proof (cases "success self'")
    case True
    with shape obtain evs where "raised = None" "list_all plain evs"
      "msgq w' = msgq w @ evs @ [done_ok self', Summary (summary_of h self' (format_size (project_size self')))]"
      by (auto simp: body_shape_def)
    then show ?thesis
      using True rb by (intro exI [of _ evs]) (simp add: run_def)
  next
    case False
    with shape obtain evs where evs: "list_all plain evs" "msgq w' = msgq w @ evs"
      by (auto simp: body_shape_def grows_by_def)
    show ?thesis
    proof (cases raised)
      case None
      then show ?thesis
        using False rb evs by (intro exI [of _ evs]) (simp add: run_def)
    next
      case (Some e)
      then show ?thesis
        using False rb evs
        by (intro exI [of _ "evs @ [Error (''Unexpected error: '' @ str_exn h e), Error (format_exc h e)]"])
           (simp add: run_def)
    qed
  qed
qed

text \<open>
  Claim C2, as the code has it. Every run ends its messages with \<open>progress_complete\<close>. A run
  that succeeds posts, just before it, the success \<open>done\<close> followed by the summary; a run
  that fails posts the failure \<open>done\<close> just before it and no summary at all: every other
  message of the run is plain.
\<close>

theorem run_closing_messages:
  "\<exists>evs. list_all plain evs \<and>
     msgq (snd (run h (new_worker pd pkgs opts) w)) =
       msgq w @ evs
       @ (if success (fst (run h (new_worker pd pkgs opts) w))
          then [done_ok (fst (run h (new_worker pd pkgs opts) w)),
                Summary (summary_of h (fst (run h (new_worker pd pkgs opts) w))
                   (format_size (project_size (fst (run h (new_worker pd pkgs opts) w)))))]
          else [done_failed])
       @ [Progress_complete]"
  by (rule run_queue_shape)

text \<open>
  The claim as stated fails on a run that cannot create its project folder (the path is
  a file): the failure \<open>done\<close> is followed by \<open>progress_complete\<close> with no summary between.
\<close>

theorem failed_run_posts_no_summary:
  "msgq (snd (run (example_host [] None) (new_worker [''demo''] [] Map.empty)
                  (example_world [([''demo''], File [])])))
     = [Error ''Cannot create project folder: error'', done_failed, Progress_complete]"
  by code_simp

section \<open>The package count of the summary\<close>

lemma finish_steps_packages [simp]: "packages (fst (snd (finish_steps h self w))) = packages self"
  unfolding finish_steps_cases by (simp split: sum.splits)

lemma install_step_packages [simp]:
  "packages (fst (snd (install_step h self pip use_python w))) = packages self"
  unfolding install_step_cases by simp

lemma locate_installer_packages [simp]:
  "packages (fst (snd (locate_installer h self venv w))) = packages self"
  by (simp add: locate_installer_def Let_def)

lemma run_body_packages [simp]: "packages (fst (snd (run_body h self w))) = packages self"
  unfolding run_body_cases by (simp add: Let_def split: sum.splits option.splits)

lemma run_packages [simp]: "packages (fst (run h self w)) = packages self"
  using run_body_packages [of h self w] by (simp add: run_def split_beta Let_def)

text \<open>
  Claim C7, as the code has it. The package count of a summary that a run posts is the
  length of the package list the worker was given, whatever number of them the installer
  installed.
\<close>

theorem summary_counts_requested:
  assumes "Summary s \<in> set (drop (length (msgq w)) (msgq (snd (run h (new_worker pd pkgs opts) w))))"
  shows "package_count s = length pkgs"
proof -
  let ?self' = "fst (run h (new_worker pd pkgs opts) w)"
  obtain evs where evs: "list_all plain evs"
    "msgq (snd (run h (new_worker pd pkgs opts) w)) =
       msgq w @ evs
       @ (if success ?self'
          then [done_ok ?self', Summary (summary_of h ?self' (format_size (project_size ?self')))]
          else [done_failed])
       @ [Progress_complete]"
    using run_queue_shape by blast
  have "Summary s \<notin> set evs"
    using evs(1) by (auto simp: list_all_iff)
  with assms evs(2) have "s = summary_of h ?self' (format_size (project_size ?self'))"
    by (auto simp: done_ok_def done_failed_def split: if_splits)
  then have "package_count s = length (packages ?self')"
    by (simp add: summary_of_def)
  then show ?thesis by (simp add: new_worker_def)
qed

theorem summary_counts_requested_witness:
  "Summary \<lparr>project_path = ''/demo'', project_size_text = ''85.0 B'', package_count = 2,
             git_initialized = False\<rparr>
     \<in> set (drop (length (msgq (example_world reused_venv_files)))
        (msgq (snd (run (example_host [Runs [] 1 id id, Runs [] 0 id id, Runs [] 1 id id] None)
           (new_worker [''demo''] [''requests'', ''numpy==1.24.0''] [''create_readme'' \<mapsto> False])
           (example_world reused_venv_files))))) \<and>
   package_count \<lparr>project_path = ''/demo'', project_size_text = ''85.0 B'', package_count = 2,
             git_initialized = False\<rparr> = length [''requests'', ''numpy==1.24.0'']"
proof -
  have a: "Summary \<lparr>project_path = ''/demo'', project_size_text = ''85.0 B'', package_count = 2,
             git_initialized = False\<rparr>
     \<in> set (drop (length (msgq (example_world reused_venv_files)))
        (msgq (snd (run (example_host [Runs [] 1 id id, Runs [] 0 id id, Runs [] 1 id id] None)
           (new_worker [''demo''] [''requests'', ''numpy==1.24.0''] [''create_readme'' \<mapsto> False])
           (example_world reused_venv_files)))))"
    by code_simp
  from a summary_counts_requested [OF a] show ?thesis by blast
qed

text \<open>
  The claim as stated fails: with two packages asked for, the batch attempt failing and the
  fallback installing the first only (\<open>Installed 1/2 packages.\<close>), the summary still
  counts two packages.
\<close>

theorem summary_counts_failed_install:
  "drop 9 (msgq (snd (run (example_host [Runs [] 1 id id, Runs [] 0 id id, Runs [] 1 id id] None)
           (new_worker [''demo''] [''requests'', ''numpy==1.24.0''] [''create_readme'' \<mapsto> False])
           (example_world reused_venv_files))))
   = [Log ''Installing 2 package(s) in batch...'',
      Warn ''Batch installation failed, trying individual packages...'',
      Log ''Installing [1/2]: requests ...'', Progress 1 2,
      Log ''Installing [2/2]: numpy==1.24.0 ...'',
      Error ''Failed to install: numpy==1.24.0'', Progress 2 2,
      Warn ''Installed 1/2 packages.'',
      Ok ''requirements.txt saved (/demo/requirements.txt)'',
      Info ''Project size: 85.0 B'',
      done_ok (new_worker [''demo''] [''requests'', ''numpy==1.24.0''] [''create_readme'' \<mapsto> False]),
      Summary \<lparr>project_path = ''/demo'', project_size_text = ''85.0 B'', package_count = 2,
                git_initialized = False\<rparr>,
      Progress_complete]"
  by code_simp

section \<open>Cancellation inside the process runner\<close>

lemma cancel_child_files [simp]: "files (cancel_child cmd keff w) = keff (files w)"
  by (simp add: cancel_child_def post_def)

lemma is_set_fst: "fst (is_set h w) = (case cancel_at h of None \<Rightarrow> False | Some k \<Rightarrow> k \<le> polls w)"
  by (simp add: is_set_def)

lemma stream_loop_cancelled:
  assumes "cancel_at h = Some k" and "k \<le> polls w + length out"
  shows "fst (stream_loop h cmd keff out w) = Some 1 \<and>
         killed (snd (stream_loop h cmd keff out w)) = killed w @ [cmd] \<and>
         files (snd (stream_loop h cmd keff out w)) = keff (files w) \<and>
         msgq (snd (stream_loop h cmd keff out w)) =
           msgq w @ map (\<lambda>l. Log (rstrip l)) (filter (\<lambda>l. l \<noteq> []) (take (k - polls w) out))
           @ [Warn ''Operation cancelled by user.'']"
  using assms(2)
proof (induction out arbitrary: w)
  case Nil
  then show ?case using assms(1) by (simp add: split_beta is_set_fst)
next
  case (Cons line rest)
  show ?case
  proof (cases "k \<le> polls w")
    case True
    then show ?thesis using assms(1) by (simp add: split_beta is_set_fst)
  next
    case False
    define w1 where "w1 = (if line \<noteq> [] then post (Log (rstrip line)) (snd (is_set h w)) else snd (is_set h w))"
    have eq: "stream_loop h cmd keff (line # rest) w = stream_loop h cmd keff rest w1"
      using False assms(1) by (simp add: split_beta is_set_fst w1_def)
    have p1: "polls w1 = Suc (polls w)" by (simp add: w1_def)
    have "k \<le> polls w1 + length rest" using Cons.prems p1 by simp
    note IH = Cons.IH [OF this]
    have tk: "take (k - polls w) (line # rest) = line # take (k - polls w1) rest"
    proof -
      from False obtain n where n: "k - polls w = Suc n" by (cases "k - polls w") auto
      then have "k - polls w1 = n" using p1 by simp
      with n show ?thesis by simp
    qed
    have m1: "msgq w1 = msgq w @ map (\<lambda>l. Log (rstrip l)) (filter (\<lambda>l. l \<noteq> []) [line])"
      by (simp add: w1_def)
    have k1: "killed w1 = killed w" and f1: "files w1 = files w" by (simp_all add: w1_def)
    show ?thesis
      unfolding eq tk using IH m1 k1 f1 by simp
  qed
qed

text \<open>
  Claim C4, as the code has it. The runner reads the flag before each read of the child's
  output. When one of these reads of the flag sees it set, the runner kills the child, posts
  one warning that the operation was cancelled, after the log messages of the lines read
  so far, and returns 1.
\<close>

theorem cancelled_stream:
  assumes "procs h (length (invoked w)) cmd = Runs out rc eff keff"
    and "cancel_at h = Some k" and "k \<le> polls w + length out"
  shows "fst (run_command_stream h cmd w) = 1 \<and>
         killed (snd (run_command_stream h cmd w)) = killed w @ [cmd] \<and>
         files (snd (run_command_stream h cmd w)) = keff (files w) \<and>
         msgq (snd (run_command_stream h cmd w)) =
           msgq w @ map (\<lambda>l. Log (rstrip l)) (filter (\<lambda>l. l \<noteq> []) (take (k - polls w) out))
           @ [Warn ''Operation cancelled by user.'']"
proof -
  let ?w0 = "w\<lparr>invoked := invoked w @ [cmd]\<rparr>"
  have "k \<le> polls ?w0 + length out" using assms(3) by simp
  from stream_loop_cancelled [OF assms(2) this, of cmd keff]
  show ?thesis
    using assms(1) by (simp add: run_command_stream_def Let_def split_beta)
qed

theorem cancelled_stream_witness:
  "procs (example_host [Runs [''Collecting requests  '', '''', ''Downloading''] 0 id (\<lambda>f. [])] (Some 2))
      (length (invoked (example_world reused_venv_files))) [''pip'', ''install'', ''requests'']
     = Runs [''Collecting requests  '', '''', ''Downloading''] 0 id (\<lambda>f. []) \<and>
   cancel_at (example_host [Runs [''Collecting requests  '', '''', ''Downloading''] 0 id (\<lambda>f. [])] (Some 2)) = Some 2 \<and>
   2 \<le> polls (example_world reused_venv_files) + length [''Collecting requests  '', '''', ''Downloading''] \<and>
   fst (run_command_stream (example_host [Runs [''Collecting requests  '', '''', ''Downloading''] 0 id (\<lambda>f. [])] (Some 2))
          [''pip'', ''install'', ''requests''] (example_world reused_venv_files)) = 1 \<and>
   msgq (snd (run_command_stream (example_host [Runs [''Collecting requests  '', '''', ''Downloading''] 0 id (\<lambda>f. [])] (Some 2))
          [''pip'', ''install'', ''requests''] (example_world reused_venv_files)))
     = [Log ''Collecting requests'', Warn ''Operation cancelled by user.'']"
proof -
  let ?h = "example_host [Runs [''Collecting requests  '', '''', ''Downloading''] 0 id (\<lambda>f. [])] (Some 2)"
  let ?w = "example_world reused_venv_files"
  have a: "procs ?h (length (invoked ?w)) [''pip'', ''install'', ''requests'']
     = Runs [''Collecting requests  '', '''', ''Downloading''] 0 id (\<lambda>f. [])"
    by (simp add: example_host_def example_world_def scripted_def)
  have b: "cancel_at ?h = Some 2" by (simp add: example_host_def)
  have c: "2 \<le> polls ?w + length [''Collecting requests  '', '''', ''Downloading'']" by simp
  have d: "map (\<lambda>l. Log (rstrip l)) (filter (\<lambda>l. l \<noteq> []) (take (2 - polls ?w) [''Collecting requests  '', '''', ''Downloading'']))
      = [Log ''Collecting requests'']"
    by code_simp
  have e: "msgq ?w = []" by (simp add: example_world_def)
  from cancelled_stream [OF a b c] d e a b c show ?thesis
    by simp
qed

text \<open>
  The claim as stated fails: the code returned on cancellation is 1, which is also what the
  runner returns for a child that was not cancelled and exited with status 1, and for a
  child that could not be launched.
\<close>

theorem cancel_code_not_distinct:
  "fst (run_command_stream (example_host [Runs [''line''] 0 id id] (Some 0)) [''pip'']
          (example_world []))
     = fst (run_command_stream (example_host [Runs [''line''] 1 id id] None) [''pip'']
          (example_world [])) \<and>
   killed (snd (run_command_stream (example_host [Runs [''line''] 1 id id] None) [''pip'']
          (example_world []))) = [] \<and>
   fst (run_command_stream (example_host [] (Some 0)) [''pip''] (example_world [])) = 1"
  by code_simp

section \<open>The per-package fallback\<close>

lemma stream_loop_uncancelled:
  "cancel_at h = None \<Longrightarrow> fst (stream_loop h cmd keff out w) = None"
  by (induction out arbitrary: w) (simp_all add: split_beta is_set_fst)

lemma run_command_stream_code:
  "cancel_at h = None \<Longrightarrow>
     fst (run_command_stream h cmd w) = exit_code (procs h (length (invoked w)) cmd)"
  by (simp add: run_command_stream_def Let_def split_beta exit_code_def stream_loop_uncancelled
      split: proc.splits)

lemma length_fallback_codes [simp]: "length (fallback_codes h pip pkgs n) = length pkgs"
  by (induction pkgs arbitrary: n) simp_all

lemma install_loop_uncancelled:
  assumes "cancel_at h = None"
  shows "fst (install_loop h pip tot idx sc pkgs w) =
           Some (sc + length (filter (\<lambda>c. c = 0) (fallback_codes h pip pkgs (length (invoked w)))))"
proof (induction pkgs arbitrary: w idx sc)
  case Nil
  show ?case by simp
next
  case (Cons pkg rest)
  define w2 where "w2 = post (Log (''Installing ['' @ str_nat idx @ ''/'' @ str_nat tot @ '']: '' @ pkg @ '' ...'')) (snd (is_set h w))"
  define r where "r = run_command_stream h [pip, ''install'', pkg] w2"
  define w5 where "w5 = post (Progress idx tot) (if fst r = 0 then snd r else post (Error (''Failed to install: '' @ pkg)) (snd r))"
  have eq: "install_loop h pip tot idx sc (pkg # rest) w =
      install_loop h pip tot (idx + 1) (if fst r = 0 then sc + 1 else sc) rest w5"
    using assms by (simp add: split_beta Let_def w2_def r_def w5_def is_set_fst)
  have i2: "invoked w2 = invoked w" by (simp add: w2_def)
  have rc: "fst r = exit_code (procs h (length (invoked w)) [pip, ''install'', pkg])"
    unfolding r_def using run_command_stream_code [OF assms, of "[pip, ''install'', pkg]" w2] i2 by simp
  have i5: "length (invoked w5) = Suc (length (invoked w))"
    by (simp add: w5_def r_def i2)
  show ?case
    unfolding eq Cons.IH i5 using rc by simp
qed

lemma last_msgq_post [simp]: "last (msgq (post m w)) = m"
  by (simp add: post_def)

lemma install_packages_individual_uncancelled:
  fixes h pip pkgs w
  defines "n \<equiv> length (filter (\<lambda>c. c = 0) (fallback_codes h pip pkgs (length (invoked w))))"
  assumes "cancel_at h = None" and "pkgs \<noteq> []"
  shows "fst (install_packages_individual h pip pkgs w) = (0 < n)"
    and "last (msgq (snd (install_packages_individual h pip pkgs w))) =
          (if n = length pkgs then Ok ''All packages installed successfully.''
           else if 0 < n then Warn (''Installed '' @ str_nat n @ ''/'' @ str_nat (length pkgs) @ '' packages.'')
           else Error ''No packages were installed.'')"
proof -
  have loop: "fst (install_loop h pip (length pkgs) (Suc 0) 0 pkgs w) = Some n"
    using install_loop_uncancelled [OF assms(2), of pip "length pkgs" "Suc 0" 0 pkgs w] by (simp add: n_def)
  obtain w1 where w1: "install_loop h pip (length pkgs) (Suc 0) 0 pkgs w = (Some n, w1)"
    using loop by (cases "install_loop h pip (length pkgs) (Suc 0) 0 pkgs w") auto
  have "0 < length pkgs" using assms(3) by simp
  then show "fst (install_packages_individual h pip pkgs w) = (0 < n)"
    by (auto simp: install_packages_individual_def Let_def w1)
  show "last (msgq (snd (install_packages_individual h pip pkgs w))) =
          (if n = length pkgs then Ok ''All packages installed successfully.''
           else if 0 < n then Warn (''Installed '' @ str_nat n @ ''/'' @ str_nat (length pkgs) @ '' packages.'')
           else Error ''No packages were installed.'')"
    by (simp add: install_packages_individual_def Let_def w1)
qed

text \<open>
  Claim C5, as the code has it. Take a run in which the flag is never set, a non-empty
  package list all of whose entries are valid, and a batch attempt that returns a code other
  than zero. Let \<open>n\<close> be the number of commands of the fallback that return zero. The
  installer reports success exactly when \<open>n\<close> is positive; its last message is the success
  message when all commands returned zero, the warning \<open>Installed n/total packages.\<close> when
  some but not all did, and the error \<open>No packages were installed.\<close> when none did. Step 4
  of the run goes on to the later steps in the first two cases and runs the cleanup and
  returns, the success flag not set, in the last.
\<close>

theorem fallback_aggregation:
  fixes h self pip w
  defines "n \<equiv> length (filter (\<lambda>c. c = 0)
                 (fallback_codes h pip (packages self) (Suc (length (invoked w)))))"
  defines "r \<equiv> install_packages_batch h self pip w"
  assumes "cancel_at h = None"
    and "packages self \<noteq> []"
    and "list_all (\<lambda>p. fst (validate_package_name p)) (packages self)"
    and "exit_code (procs h (length (invoked w)) (pip # ''install'' # packages self)) \<noteq> 0"
  shows "fst r = (0 < n) \<and>
     last (msgq (snd r)) =
       (if n = length (packages self) then Ok ''All packages installed successfully.''
        else if 0 < n
          then Warn (''Installed '' @ str_nat n @ ''/'' @ str_nat (length (packages self)) @ '' packages.'')
        else Error ''No packages were installed.'') \<and>
     install_step h self pip False w =
       (if 0 < n then finish_steps h self (snd r) else (None, self, cleanup_partial h self (snd r)))"
proof -
  define w2 where "w2 = snd (validate_loop (packages self) []
       (post (Log (''Installing '' @ str_nat (length (packages self)) @ '' package(s) in batch...'')) w))"
  define b where "b = run_command_stream h (pip # ''install'' # packages self) w2"
  define w3 where "w3 = post (Warn ''Batch installation failed, trying individual packages...'') (snd b)"
  have valid: "filter (\<lambda>p. fst (validate_package_name p)) (packages self) = packages self"
    using assms(5) by (simp add: list_all_iff)
  note unf = install_packages_batch_cases [of h self pip w, unfolded valid, folded w2_def, folded b_def, folded w3_def]
  have i2: "invoked w2 = invoked w" by (simp add: w2_def)
  have "fst b \<noteq> 0"
    unfolding b_def using run_command_stream_code [OF assms(3), of "pip # ''install'' # packages self" w2] i2 assms(6)
    by simp
  then have eq: "r = install_packages_individual h pip (packages self) w3"
    using assms(4) by (simp add: r_def unf)
  have i3: "length (invoked w3) = Suc (length (invoked w))"
    by (simp add: w3_def b_def i2)
  have 1: "fst r = (0 < n)"
    using install_packages_individual_uncancelled(1) [OF assms(3,4), of pip w3]
    by (simp add: eq i3 n_def)
  have 2: "last (msgq (snd r)) =
       (if n = length (packages self) then Ok ''All packages installed successfully.''
        else if 0 < n
          then Warn (''Installed '' @ str_nat n @ ''/'' @ str_nat (length (packages self)) @ '' packages.'')
        else Error ''No packages were installed.'')"
    using install_packages_individual_uncancelled(2) [OF assms(3,4), of pip w3]
    by (simp add: eq i3 n_def)
  have 3: "install_step h self pip False w =
       (if 0 < n then finish_steps h self (snd r) else (None, self, cleanup_partial h self (snd r)))"
    using assms(4) 1 by (simp add: install_step_cases r_def)
  from 1 2 3 show ?thesis by blast
qed


theorem fallback_aggregation_witness:
  "cancel_at (example_host [Runs [] 1 id id, Runs [] 0 id id, Runs [] 1 id id] None) = None \<and>
   packages (new_worker [''demo''] [''requests'', ''numpy==1.24.0''] Map.empty) \<noteq> [] \<and>
   list_all (\<lambda>p. fst (validate_package_name p))
     (packages (new_worker [''demo''] [''requests'', ''numpy==1.24.0''] Map.empty)) \<and>
   exit_code (procs (example_host [Runs [] 1 id id, Runs [] 0 id id, Runs [] 1 id id] None)
      (length (invoked (example_world reused_venv_files)))
      (''pip'' # ''install'' # packages (new_worker [''demo''] [''requests'', ''numpy==1.24.0''] Map.empty))) \<noteq> 0 \<and>
   fst (install_packages_batch (example_host [Runs [] 1 id id, Runs [] 0 id id, Runs [] 1 id id] None)
      (new_worker [''demo''] [''requests'', ''numpy==1.24.0''] Map.empty) ''pip''
      (example_world reused_venv_files)) \<and>
   last (msgq (snd (install_packages_batch (example_host [Runs [] 1 id id, Runs [] 0 id id, Runs [] 1 id id] None)
      (new_worker [''demo''] [''requests'', ''numpy==1.24.0''] Map.empty) ''pip''
      (example_world reused_venv_files)))) = Warn ''Installed 1/2 packages.''"
proof -
  let ?h = "example_host [Runs [] 1 id id, Runs [] 0 id id, Runs [] 1 id id] None"
  let ?self = "new_worker [''demo''] [''requests'', ''numpy==1.24.0''] Map.empty"
  let ?w = "example_world reused_venv_files"
  have a: "cancel_at ?h = None" by (simp add: example_host_def)
  have b: "packages ?self \<noteq> []" by (simp add: new_worker_def)
  have c: "list_all (\<lambda>p. fst (validate_package_name p)) (packages ?self)" by code_simp
  have d: "exit_code (procs ?h (length (invoked ?w)) (''pip'' # ''install'' # packages ?self)) \<noteq> 0"
    by (simp add: example_host_def example_world_def scripted_def exit_code_def)
  have n: "length (filter (\<lambda>c. c = 0) (fallback_codes ?h ''pip'' (packages ?self) (Suc (length (invoked ?w))))) = 1"
    by (simp add: example_host_def example_world_def scripted_def exit_code_def new_worker_def)
  have l: "length (packages ?self) = 2" by (simp add: new_worker_def)
  have s1: "str_nat 1 = ''1''" by code_simp
  have s2: "str_nat 2 = ''2''" by code_simp
  note s = s1 s2
  from fallback_aggregation [OF a b c d, unfolded n l] a b c d s show ?thesis
    by simp
qed

text \<open>
  The claim as stated fails when the flag is seen set before an attempt: the fallback then
  returns failure at once. Here the first of two commands has returned zero, the flag is
  set before the second attempt, and the result is failure with no warning.
\<close>

theorem fallback_cancelled_after_success:
  "fst (run_command_stream (example_host [Runs [] 0 id id] (Some 2)) [''pip'', ''install'', ''requests'']
         (post (Log ''Installing [1/2]: requests ...'')
            (snd (is_set (example_host [Runs [] 0 id id] (Some 2)) (example_world []))))) = 0 \<and>
   install_packages_individual (example_host [Runs [] 0 id id] (Some 2)) ''pip''
     [''requests'', ''numpy''] (example_world [])
   = (False, \<lparr>files = [], polls = 3, invoked = [[''pip'', ''install'', ''requests'']], killed = [],
              msgq = [Log ''Installing [1/2]: requests ...'', Progress 1 2]\<rparr>)"
  by code_simp

section \<open>The directory layout\<close>

lemma lookup_root [simp]: "lookup f [] = Some Dir"
  by (simp add: lookup_def)

lemma lookup_append_new:
  assumes "lookup f p = None"
  shows "lookup (f @ [(p, n)]) q = (if q = p then Some n else lookup f q)"
proof -
  have "p \<noteq> []" using assms by auto
  then show ?thesis
    using assms by (auto simp: lookup_def map_add_def split: option.splits)
qed

lemma create_entry_ok: "create_entry h p n f = Inr f' \<Longrightarrow> f' = f @ [(p, n)]"
  by (auto simp: create_entry_def split: option.splits node.splits if_splits)

lemma mkdir_flat_ok:
  assumes "mkdir h False True p f = Inr f'"
  shows "(is_dir f p \<and> f' = f) \<or> (lookup f p = None \<and> f' = f @ [(p, Dir)])"
proof (cases "os_mkdir h p f")
  case (Inr f1)
  then have "f' = f1" using assms by (simp add: mkdir.simps [of h False True])
  moreover from Inr have "lookup f p = None \<and> f1 = f @ [(p, Dir)]"
    by (auto simp: os_mkdir_def split: option.splits dest: create_entry_ok)
  ultimately show ?thesis by simp
next
  case (Inl e)
  then show ?thesis
    using assms by (simp add: mkdir.simps [of h False True] split: if_splits)
qed


lemma touch_ok:
  assumes "touch h p f = Inr f'"
  shows "(exists_path f p \<and> f' = f) \<or> (lookup f p = None \<and> f' = f @ [(p, File [])])"
  using assms by (auto simp: touch_def exists_path_def split: if_splits dest: create_entry_ok)



text \<open>One round of the loop of the layout step, when it raises nothing.\<close>

lemma layout_round:
  assumes "create_directories h pd (d # ds) w = (None, w')"
  obtains w1 where "create_directories h pd ds w1 = (None, w')"
    and "is_dir (files w1) (pd @ [d])"
    and "d \<in> set [''src'', ''tests''] \<Longrightarrow> exists_path (files w1) (pd @ [d, ''__init__.py''])"
    and "\<And>q. lookup (files w1) q =
           (if lookup (files w) q \<noteq> None then lookup (files w) q
            else if q = pd @ [d] then Some Dir
            else if d \<in> set [''src'', ''tests''] \<and> q = pd @ [d, ''__init__.py''] then Some (File [])
            else None)"
proof -
  from assms obtain f1 where f1: "mkdir h False True (pd @ [d]) (files w) = Inr f1"
    by (auto simp: Let_def split: sum.splits)
  define wa where "wa = post (Log (''Created directory: '' @ d @ ''/'')) (w\<lparr>files := f1\<rparr>)"
  have fa: "files wa = f1" by (simp add: wa_def)
  have l1: "lookup f1 q = (if lookup (files w) q \<noteq> None then lookup (files w) q
            else if q = pd @ [d] then Some Dir else None)" for q
    using mkdir_flat_ok [OF f1] by (auto simp: lookup_append_new is_dir_def)
  have d1: "is_dir f1 (pd @ [d])"
    using mkdir_flat_ok [OF f1] by (auto simp: lookup_append_new is_dir_def)
  show ?thesis
  proof (cases "d \<in> set [''src'', ''tests'']")
    case False
    then have "create_directories h pd ds wa = (None, w')"
      using assms f1 by (simp add: Let_def wa_def)
    then show ?thesis
      using False d1 l1 fa by (intro that [of wa]) auto
  next
    case True
    then obtain f2 where f2: "touch h (pd @ [d, ''__init__.py'']) f1 = Inr f2"
      using assms f1 by (auto simp: Let_def wa_def split: sum.splits)
    have next_round: "create_directories h pd ds (wa\<lparr>files := f2\<rparr>) = (None, w')"
      using assms f1 f2 True by (auto simp: Let_def wa_def)
    have ne: "pd @ [d, ''__init__.py''] \<noteq> pd @ [d]" by simp
    have l2: "lookup f2 q = (if lookup f1 q \<noteq> None then lookup f1 q
            else if q = pd @ [d, ''__init__.py''] then Some (File []) else None)" for q
      using touch_ok [OF f2] by (auto simp: lookup_append_new exists_path_def)
    have "is_dir f2 (pd @ [d])"
      using d1 l2 [of "pd @ [d]"] by (simp add: is_dir_def)
    moreover have "exists_path f2 (pd @ [d, ''__init__.py''])"
      using l2 [of "pd @ [d, ''__init__.py'']"] by (auto simp: exists_path_def)
    moreover have "lookup f2 q =
           (if lookup (files w) q \<noteq> None then lookup (files w) q
            else if q = pd @ [d] then Some Dir
            else if d \<in> set [''src'', ''tests''] \<and> q = pd @ [d, ''__init__.py''] then Some (File [])
            else None)" for q
      using l2 [of q] l1 [of q] True by auto
    ultimately show ?thesis
      using next_round by (intro that [of "wa\<lparr>files := f2\<rparr>"]) auto
  qed
qed

lemma layout_keeps:
  assumes "create_directories h pd ds w = (None, w')" and "lookup (files w) q = Some n"
  shows "lookup (files w') q = Some n"
  using assms
proof (induction ds arbitrary: w)
  case Nil
  then show ?case by simp
next
  case (Cons d ds)
  from Cons.prems(1) obtain w1 where w1: "create_directories h pd ds w1 = (None, w')"
    and l: "\<And>q. lookup (files w1) q =
           (if lookup (files w) q \<noteq> None then lookup (files w) q
            else if q = pd @ [d] then Some Dir
            else if d \<in> set [''src'', ''tests''] \<and> q = pd @ [d, ''__init__.py''] then Some (File [])
            else None)"
    by (rule layout_round) blast
  have "lookup (files w1) q = Some n" using l [of q] Cons.prems(2) by simp
  with w1 show ?case by (rule Cons.IH)
qed




lemma layout_new_init:
  assumes "create_directories h pd ds w = (None, w')" and "d \<in> set ds"
    and "d \<in> set [''src'', ''tests'']" and "lookup (files w) (pd @ [d, ''__init__.py'']) = None"
  shows "lookup (files w') (pd @ [d, ''__init__.py'']) = Some (File [])"
  using assms(1,2,4)
proof (induction ds arbitrary: w)
  case Nil
  then show ?case by simp
next
  case (Cons d' ds)
  from Cons.prems(1) obtain w1 where w1: "create_directories h pd ds w1 = (None, w')"
    and l: "\<And>q. lookup (files w1) q =
           (if lookup (files w) q \<noteq> None then lookup (files w) q
            else if q = pd @ [d'] then Some Dir
            else if d' \<in> set [''src'', ''tests''] \<and> q = pd @ [d', ''__init__.py''] then Some (File [])
            else None)"
    by (rule layout_round) blast
  show ?case
  proof (cases "d = d'")
    case True
    then have "lookup (files w1) (pd @ [d, ''__init__.py'']) = Some (File [])"
      using l [of "pd @ [d, ''__init__.py'']"] Cons.prems(3) assms(3) by simp
    with w1 show ?thesis by (rule layout_keeps)
  next
    case False
    then have "lookup (files w1) (pd @ [d, ''__init__.py'']) = None"
      using l [of "pd @ [d, ''__init__.py'']"] Cons.prems(3) by simp
    moreover from False Cons.prems(2) have "d \<in> set ds" by simp
    ultimately show ?thesis using w1 Cons.IH by blast
  qed
qed







text \<open>
  Claim C10. When the layout step completes, \<open>__init__.py\<close> exists in \<open>src\<close> and in \<open>tests\<close>:
  where there was none it is a new empty file, and where there was one it is as it was
  (\<open>touch\<close> does not truncate).
\<close>

theorem layout_init_files:
  assumes "create_directory_structure h self w = (None, w')" and "d \<in> set [''src'', ''tests'']"
  shows "lookup (files w') (project_dir self @ [d, ''__init__.py'']) =
           (case lookup (files w) (project_dir self @ [d, ''__init__.py'']) of
              None \<Rightarrow> Some (File [])
            | Some n \<Rightarrow> Some n)"
proof -
  have c: "create_directories h (project_dir self) directories w = (None, w')"
    using assms(1) by (simp add: create_directory_structure_def)
  have d: "d \<in> set directories" using assms(2) by (auto simp: directories_def)
  show ?thesis
  proof (cases "lookup (files w) (project_dir self @ [d, ''__init__.py''])")
    case None
    with layout_new_init [OF c d assms(2)] show ?thesis by simp
  next
    case (Some n)
    with layout_keeps [OF c] show ?thesis by simp
  qed
qed

theorem layout_init_files_witness:
  "fst (create_directory_structure (example_host [] None) (new_worker [''demo''] [] Map.empty)
     (example_world [([''demo''], Dir), ([''demo'', ''src''], Dir),
        ([''demo'', ''src'', ''__init__.py''], File ''import os'')])) = None \<and>
   lookup (files (snd (create_directory_structure (example_host [] None)
     (new_worker [''demo''] [] Map.empty)
     (example_world [([''demo''], Dir), ([''demo'', ''src''], Dir),
        ([''demo'', ''src'', ''__init__.py''], File ''import os'')]))))
     [''demo'', ''src'', ''__init__.py''] = Some (File ''import os'') \<and>
   lookup (files (snd (create_directory_structure (example_host [] None)
     (new_worker [''demo''] [] Map.empty)
     (example_world [([''demo''], Dir), ([''demo'', ''src''], Dir),
        ([''demo'', ''src'', ''__init__.py''], File ''import os'')]))))
     [''demo'', ''tests'', ''__init__.py''] = Some (File [])"
proof -
  let ?h = "example_host [] None"
  let ?s = "new_worker [''demo''] [] Map.empty"
  let ?w = "example_world [([''demo''], Dir), ([''demo'', ''src''], Dir),
        ([''demo'', ''src'', ''__init__.py''], File ''import os'')]"
  have a: "fst (create_directory_structure ?h ?s ?w) = None" by code_simp
  then have a': "create_directory_structure ?h ?s ?w = (None, snd (create_directory_structure ?h ?s ?w))"
    by (metis prod.collapse)
  have s: "''src'' \<in> set [''src'', ''tests'']" and t: "''tests'' \<in> set [''src'', ''tests'']"
    by simp_all
  have p: "project_dir ?s = [''demo'']" by (simp add: new_worker_def)
  have l1: "lookup (files ?w) [''demo'', ''src'', ''__init__.py''] = Some (File ''import os'')"
    by (simp add: example_world_def lookup_def)
  have l2: "lookup (files ?w) [''demo'', ''tests'', ''__init__.py''] = None"
    by (simp add: example_world_def lookup_def)
  from layout_init_files [OF a' s] layout_init_files [OF a' t] a show ?thesis
    by (simp add: p l1 l2)
qed

section \<open>A run whose flag is set\<close>


lemma validate_loop_polls [simp]: "polls (snd (validate_loop pkgs valid w)) = polls w"
  by (induction pkgs arbitrary: valid w) (auto simp: split_beta)

lemma create_directories_polls [simp]: "polls (snd (create_directories h pd ds w)) = polls w"
  by (induction ds arbitrary: w) (auto simp: Let_def split: sum.splits)












section \<open>Cleanup of a reused environment\<close>

text \<open>
  Claim C6 at a failing input. The project folder already holds an environment, which the
  run reuses (no process builds one); the cleanup option is on and the installation fails
  altogether. The cleanup removes the environment that was there before the run.
\<close>

theorem reused_venv_removed:
  "exists_path (files (example_world reused_venv_files)) [''demo'', ''venv''] \<and>
   \<not> exists_path (files (snd (run (example_host [Runs [] 1 id id, Runs [] 1 id id] None)
      (new_worker [''demo''] [''requests''] [''cleanup_on_fail'' \<mapsto> True])
      (example_world reused_venv_files)))) [''demo'', ''venv''] \<and>
   invoked (snd (run (example_host [Runs [] 1 id id, Runs [] 1 id id] None)
      (new_worker [''demo''] [''requests''] [''cleanup_on_fail'' \<mapsto> True])
      (example_world reused_venv_files)))
     = [[''/demo/venv/bin/pip'', ''install'', ''requests''],
        [''/demo/venv/bin/pip'', ''install'', ''requests'']] \<and>
   drop 8 (msgq (snd (run (example_host [Runs [] 1 id id, Runs [] 1 id id] None)
      (new_worker [''demo''] [''requests''] [''cleanup_on_fail'' \<mapsto> True])
      (example_world reused_venv_files))))
     = [Warn (''venv already exists '' @ dash @ '' reusing.''),
        Log ''Installing 1 package(s) in batch...'',
        Warn ''Batch installation failed, trying individual packages...'',
        Log ''Installing [1/1]: requests ...'', Error ''Failed to install: requests'',
        Progress 1 1, Error ''No packages were installed.'',
        Log ''Cleaned up partial virtual environment.'', done_failed, Progress_complete]"
  by code_simp

section \<open>The flag between the steps\<close>

lemma quiet_refl [simp]: "quiet w w"
  by (simp add: quiet_def)






lemma quiet_files [simp]: "quiet w (w1\<lparr>files := f\<rparr>) = quiet w w1"
  by (simp add: quiet_def)


lemma subprocess_run_invoked [simp]: "invoked (snd (subprocess_run h cmd w)) = invoked w @ [cmd]"
  by (simp add: subprocess_run_def Let_def split: proc.splits)

lemma subprocess_run_polls [simp]: "polls (snd (subprocess_run h cmd w)) = polls w"
  by (simp add: subprocess_run_def Let_def split: proc.splits)

lemma create_directories_invoked [simp]: "invoked (snd (create_directories h pd ds w)) = invoked w"
  by (induction ds arbitrary: w) (auto simp: Let_def split: sum.splits)




lemma write_requirements_frame [simp]:
  "invoked (snd (write_requirements h self w)) = invoked w"
  "polls (snd (write_requirements h self w)) = polls w"
  by (auto simp: write_requirements_def Let_def split: sum.splits)

lemma create_readme_frame [simp]:
  "invoked (snd (create_readme h self w)) = invoked w"
  "polls (snd (create_readme h self w)) = polls w"
  by (auto simp: create_readme_def Let_def split: sum.splits)



lemma cleanup_partial_frame [simp]:
  "invoked (cleanup_partial h self w) = invoked w"
  "polls (cleanup_partial h self w) = polls w"
  by (auto simp: cleanup_partial_def split: option.splits sum.splits)








lemma validate_loop_killed [simp]: "killed (snd (validate_loop pkgs valid w)) = killed w"
  by (induction pkgs arbitrary: valid w) (auto simp: split_beta)








end
